theory Spec2Isabelle
  imports Complex_Main "HOL-Library.Sublist"
begin

section \<open>Strings and documents\<close>

text \<open>
  A Python \<open>str\<close> is a sequence of Unicode code points, so a string of the scraper is a
  list of code points. \<open>u ''abc''\<close> writes an ASCII literal.
\<close>

type_synonym ustr = "nat list"

abbreviation u :: "string \<Rightarrow> ustr" where
  "u s \<equiv> map of_char s"

text \<open>
  The parsed document (what \<open>BeautifulSoup(response.text, 'html.parser')\<close> returns) is a
  forest of nodes. \<open>Elem name classes attrs children\<close> is a \<open>Tag\<close>: its name, its
  \<open>class\<close> attribute as the parser stores it (the list of class tokens, empty when the
  attribute is missing), its other attributes, and its children in document order.
  \<open>Text s\<close> is a string node that \<open>get_text\<close> reads; \<open>Hidden s\<close> is a string node that
  \<open>get_text\<close> skips (a comment, a declaration, a processing instruction).
\<close>

datatype node =
    Text ustr
  | Hidden ustr
  | Elem ustr "ustr list" "(ustr \<times> ustr) list" "node list"

type_synonym document = "node list"

section \<open>String operations of Python\<close>

text \<open>
  The characters that \<open>str.strip()\<close>, \<open>str.split()\<close> and the pattern \<open>\s\<close> treat
  as whitespace.
\<close>

definition is_space :: "nat \<Rightarrow> bool" where
  "is_space c \<longleftrightarrow>
     (9 \<le> c \<and> c \<le> 13) \<or> (28 \<le> c \<and> c \<le> 32) \<or> c = 133 \<or> c = 160 \<or> c = 5760 \<or>
     (8192 \<le> c \<and> c \<le> 8202) \<or> c = 8232 \<or> c = 8233 \<or> c = 8239 \<or> c = 8287 \<or>
     c = 12288"

definition strip :: "ustr \<Rightarrow> ustr" where
  "strip s = rev (dropWhile is_space (rev (dropWhile is_space s)))"

text \<open>\<open>split_words s cur\<close> is \<open>s.split()\<close>; \<open>cur\<close> is the word being read.\<close>

fun split_words :: "ustr \<Rightarrow> ustr \<Rightarrow> ustr list" where
  "split_words [] cur = (if cur = [] then [] else [cur])"
| "split_words (c # cs) cur =
     (if is_space c then (if cur = [] then split_words cs [] else cur # split_words cs [])
      else split_words cs (cur @ [c]))"

definition split :: "ustr \<Rightarrow> ustr list" where
  "split s = split_words s []"

fun join :: "ustr \<Rightarrow> ustr list \<Rightarrow> ustr" where
  "join sep [] = []"
| "join sep [x] = x"
| "join sep (x # y # ys) = x @ sep @ join sep (y # ys)"

text \<open>
  \<open>sub_spaces False s\<close> is \<open>re.sub(r'\s+', ' ', s)\<close>; the flag says that the previous
  character was whitespace, already replaced.
\<close>

fun sub_spaces :: "bool \<Rightarrow> ustr \<Rightarrow> ustr" where
  "sub_spaces prev [] = []"
| "sub_spaces prev (c # cs) =
     (if is_space c then (if prev then sub_spaces True cs else 32 # sub_spaces True cs)
      else c # sub_spaces False cs)"

text \<open>
  What the scraper takes from the Python library and the platform, and the repository
  does not define: \<open>html.unescape\<close>, \<open>urllib.parse.urljoin\<close>, \<open>str.lower\<close>, the value
  of a decimal digit (the characters of \<open>\d\<close>, which \<open>int\<close> reads), and the clock of
  \<open>datetime.now().isoformat()\<close>, read after a number of requests.
\<close>

record platform =
  py_unescape :: "ustr \<Rightarrow> ustr"
  py_urljoin :: "ustr \<Rightarrow> ustr \<Rightarrow> ustr"
  py_lower :: "ustr \<Rightarrow> ustr"
  py_digit :: "nat \<Rightarrow> nat option"
  py_now :: "nat \<Rightarrow> ustr"

definition is_digit :: "platform \<Rightarrow> nat \<Rightarrow> bool" where
  "is_digit L c \<longleftrightarrow> py_digit L c \<noteq> None"

text \<open>\<open>int(ds)\<close> for a string of decimal digits.\<close>

definition py_int :: "platform \<Rightarrow> ustr \<Rightarrow> int" where
  "py_int L ds = int (foldl (\<lambda>acc c. 10 * acc + (case py_digit L c of Some d \<Rightarrow> d | None \<Rightarrow> 0)) 0 ds)"

text \<open>
  \<open>match_number kw s\<close>: the pattern \<open>kw\s*(\d+)\<close> matched at the start of \<open>s\<close>, giving
  group 1. \<open>search_number kw s\<close> is \<open>re.search\<close> with that pattern: the leftmost match.
\<close>

definition match_number :: "platform \<Rightarrow> ustr \<Rightarrow> ustr \<Rightarrow> ustr option" where
  "match_number L kw s =
     (if prefix kw s then
        (let ds = takeWhile (is_digit L) (dropWhile is_space (drop (length kw) s))
         in if ds = [] then None else Some ds)
      else None)"

fun search_number :: "platform \<Rightarrow> ustr \<Rightarrow> ustr \<Rightarrow> ustr option" where
  "search_number L kw [] = match_number L kw []"
| "search_number L kw (c # cs) =
     (case match_number L kw (c # cs) of
        Some ds \<Rightarrow> Some ds
      | None \<Rightarrow> search_number L kw cs)"

text \<open>\<open>re.sub(r'^Episode\s*\d+:\s*', '', title)\<close>.\<close>

definition drop_episode_prefix :: "platform \<Rightarrow> ustr \<Rightarrow> ustr" where
  "drop_episode_prefix L title =
     (if prefix (u ''Episode'') title then
        (let r = dropWhile is_space (drop 7 title);
             ds = takeWhile (is_digit L) r;
             r2 = dropWhile (is_digit L) r
         in if ds \<noteq> [] \<and> prefix (u '':'') r2 then dropWhile is_space (drop 1 r2) else title)
      else title)"

section \<open>The document tree of BeautifulSoup\<close>

text \<open>\<open>tag.get(key)\<close> for an attribute other than \<open>class\<close>.\<close>

fun get_attr :: "node \<Rightarrow> ustr \<Rightarrow> ustr option" where
  "get_attr (Elem n cls as cs) k = map_of as k"
| "get_attr _ k = None"

fun tag_name :: "node \<Rightarrow> ustr option" where
  "tag_name (Elem n cls as cs) = Some n"
| "tag_name _ = None"

fun get_class :: "node \<Rightarrow> ustr list" where
  "get_class (Elem n cls as cs) = cls"
| "get_class _ = []"

fun contents :: "node \<Rightarrow> node list" where
  "contents (Elem n cls as cs) = cs"
| "contents _ = []"

text \<open>
  A search by \<open>class_='c'\<close> matches a tag when one of its class tokens is \<open>c\<close> or the
  whole attribute is; a search by \<open>class_=re.compile(p)\<close> for a literal \<open>p\<close> when \<open>p\<close>
  occurs in one of the tokens or in the whole attribute.
\<close>

definition class_is :: "ustr \<Rightarrow> node \<Rightarrow> bool" where
  "class_is c n \<longleftrightarrow> c \<in> set (get_class n) \<or> (get_class n \<noteq> [] \<and> join (u '' '') (get_class n) = c)"

definition class_search :: "ustr \<Rightarrow> node \<Rightarrow> bool" where
  "class_search p n \<longleftrightarrow>
     (\<exists>c \<in> set (get_class n). sublist p c) \<or>
     (get_class n \<noteq> [] \<and> sublist p (join (u '' '') (get_class n)))"

definition is_tag :: "ustr \<Rightarrow> node \<Rightarrow> bool" where
  "is_tag name n \<longleftrightarrow> tag_name n = Some name"

text \<open>
  \<open>find_first p ns\<close> is \<open>find\<close> over the forest \<open>ns\<close> in document order: the first tag
  that satisfies \<open>p\<close>, with the siblings that follow it (what \<open>find_next_sibling\<close>
  walks). \<open>find_all p ns\<close> lists every such tag, nested ones too.
\<close>

fun find_first :: "(node \<Rightarrow> bool) \<Rightarrow> node list \<Rightarrow> (node \<times> node list) option" where
  "find_first p [] = None"
| "find_first p (Text s # rest) = find_first p rest"
| "find_first p (Hidden s # rest) = find_first p rest"
| "find_first p (Elem n cls as cs # rest) =
     (if p (Elem n cls as cs) then Some (Elem n cls as cs, rest)
      else case find_first p cs of
             Some r \<Rightarrow> Some r
           | None \<Rightarrow> find_first p rest)"

fun find_all :: "(node \<Rightarrow> bool) \<Rightarrow> node list \<Rightarrow> node list" where
  "find_all p [] = []"
| "find_all p (Text s # rest) = find_all p rest"
| "find_all p (Hidden s # rest) = find_all p rest"
| "find_all p (Elem n cls as cs # rest) =
     (if p (Elem n cls as cs) then [Elem n cls as cs] else []) @ find_all p cs @ find_all p rest"

definition find_tag :: "(node \<Rightarrow> bool) \<Rightarrow> node list \<Rightarrow> node option" where
  "find_tag p ns = map_option fst (find_first p ns)"

text \<open>\<open>find_next_sibling\<close> over the siblings that follow a tag: only tags are candidates.\<close>

fun find_next_sibling :: "(node \<Rightarrow> bool) \<Rightarrow> node list \<Rightarrow> (node \<times> node list) option" where
  "find_next_sibling p [] = None"
| "find_next_sibling p (Text s # rest) = find_next_sibling p rest"
| "find_next_sibling p (Hidden s # rest) = find_next_sibling p rest"
| "find_next_sibling p (Elem n cls as cs # rest) =
     (if p (Elem n cls as cs) then Some (Elem n cls as cs, rest) else find_next_sibling p rest)"

text \<open>The strings that \<open>get_text\<close> joins, in document order.\<close>

fun all_strings :: "node list \<Rightarrow> ustr list" where
  "all_strings [] = []"
| "all_strings (Text s # rest) = s # all_strings rest"
| "all_strings (Hidden s # rest) = all_strings rest"
| "all_strings (Elem n cls as cs # rest) = all_strings cs @ all_strings rest"

text \<open>\<open>tag.get_text()\<close>, and \<open>tag.get_text(separator=sep, strip=True)\<close>.\<close>

definition get_text :: "node \<Rightarrow> ustr" where
  "get_text n = concat (all_strings (contents n))"

definition get_text_strip :: "ustr \<Rightarrow> node \<Rightarrow> ustr" where
  "get_text_strip sep n = join sep (filter (\<lambda>s. s \<noteq> []) (map strip (all_strings (contents n))))"

text \<open>\<open>tag.string\<close>: the single string below a tag, if there is exactly one path to it.\<close>

fun node_string :: "node \<Rightarrow> ustr option" where
  "node_string (Text s) = Some s"
| "node_string (Hidden s) = Some s"
| "node_string (Elem n cls as [c]) = node_string c"
| "node_string (Elem n cls as cs) = None"

definition string_search :: "ustr \<Rightarrow> node \<Rightarrow> bool" where
  "string_search p n \<longleftrightarrow> (case node_string n of Some s \<Rightarrow> sublist p s | None \<Rightarrow> False)"

definition clean_text :: "platform \<Rightarrow> node option \<Rightarrow> ustr" where
  "clean_text L element =
     (case element of
        None \<Rightarrow> []
      | Some e \<Rightarrow> strip (sub_spaces False (py_unescape L (get_text_strip (u '' '') e))))"

section \<open>Configuration\<close>

definition MIN_DELAY :: rat where "MIN_DELAY = 3 / 2"
definition MAX_DELAY :: rat where "MAX_DELAY = 3"
definition BACKOFF_FACTOR :: rat where "BACKOFF_FACTOR = 2"
definition MAX_RETRIES :: nat where "MAX_RETRIES = 5"

section \<open>RateLimiter\<close>

text \<open>
  \<open>RateLimiter.delay\<close> is a Python float; the model computes with exact rationals.
  \<open>wait\<close> only sleeps and stamps the clock, it never changes \<open>delay\<close>, so time is
  left out of the state.
\<close>

definition success :: "rat \<Rightarrow> rat" where
  "success delay = max MIN_DELAY (delay * (9 / 10))"

definition failure :: "rat \<Rightarrow> rat" where
  "failure delay = min (MAX_DELAY * 10) (delay * BACKOFF_FACTOR)"

datatype limiter_call = OnSuccess | OnFailure

fun limiter_step :: "rat \<Rightarrow> limiter_call \<Rightarrow> rat" where
  "limiter_step d OnSuccess = success d"
| "limiter_step d OnFailure = failure d"

definition limiter_run :: "limiter_call list \<Rightarrow> rat" where
  "limiter_run calls = foldl limiter_step MIN_DELAY calls"

section \<open>OCDBScraper state and fetch_page\<close>

text \<open>
  The outcome of one \<open>session.get(url, timeout=30)\<close>: a response with a status code and
  its body (already parsed), a \<open>Timeout\<close>, or another \<open>RequestException\<close>.
\<close>

datatype response = Status int document | Timeout | RequestError

text \<open>
  The network: the outcome of the request for a URL, given how many requests the scraper
  has issued before it.
\<close>

type_synonym web = "nat \<Rightarrow> ustr \<Rightarrow> response"

record fetcher =
  delay :: rat
  requests :: "ustr list"

definition on_success :: "'a fetcher_scheme \<Rightarrow> 'a fetcher_scheme" where
  "on_success s = s\<lparr>delay := success (delay s)\<rparr>"

definition on_failure :: "'a fetcher_scheme \<Rightarrow> 'a fetcher_scheme" where
  "on_failure s = s\<lparr>delay := failure (delay s)\<rparr>"

text \<open>
  \<open>fetch_attempts web url n s\<close> is the \<open>for attempt in range(MAX_RETRIES)\<close> loop of
  \<open>fetch_page\<close> with \<open>n\<close> attempts left. The result \<open>None\<close> is Python's \<open>None\<close>.
\<close>

fun fetch_attempts ::
  "web \<Rightarrow> ustr \<Rightarrow> nat \<Rightarrow> 'a fetcher_scheme \<Rightarrow> document option \<times> 'a fetcher_scheme" where
  "fetch_attempts web url 0 s = (None, s)"
| "fetch_attempts web url (Suc n) s =
     (let s1 = s\<lparr>requests := requests s @ [url]\<rparr> in
      case web (length (requests s)) url of
        Status code body \<Rightarrow>
          if code = 200 then (Some body, on_success s1)
          else if code = 429 then fetch_attempts web url n (on_failure s1)
          else if code \<ge> 500 then fetch_attempts web url n (on_failure s1)
          else (None, s1)
      | Timeout \<Rightarrow> fetch_attempts web url n (on_failure s1)
      | RequestError \<Rightarrow> fetch_attempts web url n (on_failure s1))"

definition fetch_page ::
  "web \<Rightarrow> ustr \<Rightarrow> 'a fetcher_scheme \<Rightarrow> document option \<times> 'a fetcher_scheme" where
  "fetch_page web url s = fetch_attempts web url MAX_RETRIES s"

section \<open>Index vocabularies\<close>

definition BASE_URL :: ustr where "BASE_URL = u ''https://ocdb.cc''"
definition EPISODES_URL :: ustr where "EPISODES_URL = BASE_URL @ u ''/episodes/''"

definition GREEK_LETTERS :: "ustr list" where
  "GREEK_LETTERS = [u ''Alpha'', u ''Beta'', u ''Gamma'', u ''Delta'', u ''Epsilon'', u ''Zeta'']"

text \<open>The six symbols are the code points U+1D770 to U+1D775.\<close>

definition GREEK_SYMBOLS :: "ustr list" where
  "GREEK_SYMBOLS = [[120688], [120689], [120690], [120691], [120692], [120693]]"

definition EGYPTIAN_GLYPHS :: "ustr list" where
  "EGYPTIAN_GLYPHS = [u ''Two Reeds'', u ''Horned Viper'', u ''Lion'', u ''Water'',
     u ''Twisted Flax'', u ''Eye of Horus'']"

section \<open>Episode records\<close>

text \<open>
  A clue is a string or a dictionary with a \<open>type\<close>: \<open>TextClue text\<close>,
  \<open>ImageClue url alt\<close>, \<open>AudioClue url\<close>.
\<close>

datatype clue = TextClue ustr | ImageClue ustr ustr | AudioClue ustr

record question =
  q_label :: ustr
  q_clues :: "clue list"
  q_answer :: ustr

text \<open>A wall group is \<open>{'items', 'connection'}\<close> or \<open>{'raw_text'}\<close>.\<close>

datatype wall_group = Group "ustr list" ustr | RawGroup ustr

record wall =
  w_label :: ustr
  w_groups :: "wall_group list"

text \<open>
  A missing-vowels clue is \<open>{'clue', 'answer'}\<close> or, from the raw-text parser,
  \<open>{'answer'}\<close> alone; a category is \<open>{'category', 'clues'}\<close> or \<open>{'raw_text'}\<close>.
\<close>

datatype vowel_clue = VowelClue ustr ustr | AnswerOnly ustr

datatype vowel_category = Category ustr "vowel_clue list" | RawCategory ustr

record stub =
  stub_url :: ustr
  stub_series :: ustr
  stub_episode_number :: "int option"
  stub_title :: ustr

record episode =
  ep_url :: ustr
  ep_series :: ustr
  ep_episode_number :: "int option"
  ep_title :: ustr
  ep_scraped_at :: ustr
  ep_series_number :: "int option"
  round1 :: "question list"
  round2 :: "question list"
  round3 :: "wall list"
  round4 :: "vowel_category list"

section \<open>Clues and answers\<close>

text \<open>\<open>tag.get(key, default)\<close>.\<close>

definition attr_or :: "node \<Rightarrow> ustr \<Rightarrow> ustr \<Rightarrow> ustr" where
  "attr_or n k d = (case get_attr n k of Some v \<Rightarrow> v | None \<Rightarrow> d)"

text \<open>
  \<open>href=re.compile(r'\.mp3$')\<close>: the attribute is there and ends in \<open>.mp3\<close>, or in
  \<open>.mp3\<close> and a final newline, where \<open>$\<close> matches too.
\<close>

definition mp3_href :: "node \<Rightarrow> bool" where
  "mp3_href n =
     (case get_attr n (u ''href'') of
        Some h \<Rightarrow> suffix (u ''.mp3'') h \<or> suffix (u ''.mp3'' @ [10]) h
      | None \<Rightarrow> False)"

definition div_class :: "ustr \<Rightarrow> node \<Rightarrow> bool" where
  "div_class c n \<longleftrightarrow> is_tag (u ''div'') n \<and> class_is c n"

definition PLACEHOLDERS :: "ustr list" where
  "PLACEHOLDERS = [u ''Clue 2'', u ''Clue 3'', u ''Clue 4'', u ''?'']"

text \<open>
  The body of the loop of \<open>extract_clues\<close>: what one clue div appends to \<open>clues\<close>.
  The audio link was found by its \<open>href\<close>, so \<open>audio_link['href']\<close> is there.
\<close>

definition clue_of :: "platform \<Rightarrow> node \<Rightarrow> clue list" where
  "clue_of L clue_div =
     (case find_tag (\<lambda>n. is_tag (u ''a'') n \<and> mp3_href n) (contents clue_div) of
        Some audio_link \<Rightarrow> [AudioClue (attr_or audio_link (u ''href'') [])]
      | None \<Rightarrow>
        (case find_tag (is_tag (u ''img'')) (contents clue_div) of
           Some img \<Rightarrow> [ImageClue (attr_or img (u ''src'') []) (attr_or img (u ''alt'') [])]
         | None \<Rightarrow>
           (case find_tag (div_class (u ''card'')) (contents clue_div) of
              Some card_div \<Rightarrow>
                (case find_tag (div_class (u ''back'')) (contents card_div) of
                   Some back \<Rightarrow>
                     (let text = clean_text L (Some back)
                      in if text \<noteq> [] then [TextClue text] else [])
                 | None \<Rightarrow> [])
            | None \<Rightarrow>
                (let text = clean_text L (Some clue_div)
                 in if text \<noteq> [] \<and> text \<notin> set PLACEHOLDERS then [TextClue text] else []))))"

definition extract_clues :: "platform \<Rightarrow> node \<Rightarrow> clue list" where
  "extract_clues L container =
     concat (map (clue_of L) (find_all (div_class (u ''clue'')) (contents container)))"

definition extract_answer :: "platform \<Rightarrow> node \<Rightarrow> ustr" where
  "extract_answer L container =
     (case find_tag (div_class (u ''answer'')) (contents container) of
        Some answer_div \<Rightarrow>
          (case find_tag (div_class (u ''back'')) (contents answer_div) of
             Some back \<Rightarrow> clean_text L (Some back)
           | None \<Rightarrow> clean_text L (Some answer_div))
      | None \<Rightarrow> [])"

section \<open>Connection rounds\<close>

text \<open>\<open>str(n)\<close> for a round number.\<close>

function decimal :: "nat \<Rightarrow> ustr" where
  "decimal n = (if n < 10 then [48 + n] else decimal (n div 10) @ [48 + n mod 10])"
  by pat_completeness auto
termination
  by (relation "measure id") auto

declare decimal.simps [simp del]

text \<open>
  \<open>soup.find('h2', id='roundN') or soup.find('h2', string=re.compile('Round N'))\<close>,
  with the siblings that follow the header.
\<close>

definition find_round_header :: "document \<Rightarrow> nat \<Rightarrow> (node \<times> node list) option" where
  "find_round_header soup round_num =
     (case find_first (\<lambda>n. is_tag (u ''h2'') n \<and>
                           get_attr n (u ''id'') = Some (u ''round'' @ decimal round_num)) soup of
        Some r \<Rightarrow> Some r
      | None \<Rightarrow>
          find_first (\<lambda>n. is_tag (u ''h2'') n \<and>
                          string_search (u ''Round '' @ decimal round_num) n) soup)"

fun greek_label :: "ustr \<Rightarrow> (ustr \<times> ustr) list \<Rightarrow> ustr option" where
  "greek_label label_text [] = None"
| "greek_label label_text ((greek, symbol) # rest) =
     (if sublist greek label_text \<or> sublist symbol label_text then Some greek
      else greek_label label_text rest)"

fun glyph_label :: "platform \<Rightarrow> ustr \<Rightarrow> ustr list \<Rightarrow> ustr option \<Rightarrow> ustr option" where
  "glyph_label L label_text [] index_label = index_label"
| "glyph_label L label_text (glyph # rest) index_label =
     (if sublist (py_lower L glyph) (py_lower L label_text) then Some glyph
      else glyph_label L label_text rest index_label)"

text \<open>The two loops that determine \<open>index_label\<close>, and \<open>index_label or label_text\<close>.\<close>

definition index_label :: "platform \<Rightarrow> ustr \<Rightarrow> ustr option" where
  "index_label L label_text =
     glyph_label L label_text EGYPTIAN_GLYPHS
       (greek_label label_text (zip GREEK_LETTERS GREEK_SYMBOLS))"

definition question_label :: "platform \<Rightarrow> ustr \<Rightarrow> ustr" where
  "question_label L label_text =
     (case index_label L label_text of
        Some l \<Rightarrow> if l = [] then label_text else l
      | None \<Rightarrow> label_text)"

definition next_round :: "node \<Rightarrow> bool" where
  "next_round current \<longleftrightarrow> is_tag (u ''h2'') current \<and> sublist (u ''Round'') (get_text current)"

definition find_grid :: "node list \<Rightarrow> node option" where
  "find_grid following =
     (case find_next_sibling (div_class (u ''round'')) following of
        Some (grid, _) \<Rightarrow> Some grid
      | None \<Rightarrow> map_option fst (find_next_sibling (div_class (u ''grid-container'')) following))"

text \<open>
  The \<open>while current\<close> loop of \<open>parse_connection_round\<close> over the siblings after the
  round header.
\<close>

fun connection_questions :: "platform \<Rightarrow> node list \<Rightarrow> question list" where
  "connection_questions L [] = []"
| "connection_questions L (Text s # rest) = connection_questions L rest"
| "connection_questions L (Hidden s # rest) = connection_questions L rest"
| "connection_questions L (Elem n cls as cs # rest) =
     (if next_round (Elem n cls as cs) then []
      else if n = u ''h3'' then
        (case find_grid rest of
           Some grid \<Rightarrow>
             \<lparr>q_label = question_label L (get_text_strip [] (Elem n cls as cs)),
              q_clues = extract_clues L grid,
              q_answer = extract_answer L grid\<rparr> # connection_questions L rest
         | None \<Rightarrow> connection_questions L rest)
      else connection_questions L rest)"

definition parse_connection_round :: "platform \<Rightarrow> document \<Rightarrow> nat \<Rightarrow> question list" where
  "parse_connection_round L soup round_num =
     (case find_round_header soup round_num of
        None \<Rightarrow> []
      | Some (round_header, following) \<Rightarrow> connection_questions L following)"

section \<open>The wall round\<close>

text \<open>
  \<open>split_answer text []\<close> is \<open>re.split(r'\s+Answer\s*', text)\<close>: a match starts at a
  whitespace character whose run of whitespace is followed by \<open>Answer\<close>, and takes the
  whitespace after it.
\<close>

function split_answer :: "ustr \<Rightarrow> ustr \<Rightarrow> ustr list" where
  "split_answer [] cur = [cur]"
| "split_answer (c # cs) cur =
     (if is_space c \<and> prefix (u ''Answer'') (dropWhile is_space cs)
      then cur # split_answer (dropWhile is_space (drop 6 (dropWhile is_space cs))) []
      else split_answer cs (cur @ [c]))"
  by pat_completeness auto
termination
proof (relation "measure (\<lambda>(s, cur). length s)", goal_cases)
  case 1
  then show ?case by simp
next
  case (2 c cs cur)
  have "length (dropWhile is_space (drop 6 (dropWhile is_space cs)))
          \<le> length (drop 6 (dropWhile is_space cs))"
    by (rule length_dropWhile_le)
  also have "\<dots> \<le> length (dropWhile is_space cs)" by simp
  also have "\<dots> \<le> length cs" by (rule length_dropWhile_le)
  finally show ?case by simp
next
  case (3 c cs cur)
  then show ?case by simp
qed

text \<open>The body of the loop of \<open>parse_wall_raw_text\<close> for one part.\<close>

definition raw_group_of :: "ustr \<Rightarrow> wall_group list" where
  "raw_group_of part0 =
     (let part = strip part0 in
      if part = [] then []
      else
        (let words = split part in
         if length words \<ge> 5 then [Group (take 4 words) (join (u '' '') (drop 4 words))]
         else if words \<noteq> [] then [RawGroup part]
         else []))"

definition parse_wall_raw_text :: "ustr \<Rightarrow> wall_group list" where
  "parse_wall_raw_text text = concat (map raw_group_of (split_answer text []))"

text \<open>
  The body of \<open>for group_num in range(1, 5)\<close>: the items and the connection of one
  group number, and what the body appends to \<open>groups\<close>.
\<close>

definition group_items :: "platform \<Rightarrow> node \<Rightarrow> nat \<Rightarrow> ustr list" where
  "group_items L wall_container group_num =
     concat (map
       (\<lambda>clue_cell.
          case find_tag (div_class (u ''clue'')) (contents clue_cell) of
            Some clue_div \<Rightarrow>
              (let text = clean_text L (Some clue_div) in if text \<noteq> [] then [text] else [])
          | None \<Rightarrow> [])
       (find_all (\<lambda>n. is_tag (u ''div'') n \<and>
                       class_search (u ''group'' @ decimal group_num @ u ''-clue'') n)
          (contents wall_container)))"

definition group_connection :: "platform \<Rightarrow> node \<Rightarrow> nat \<Rightarrow> ustr" where
  "group_connection L wall_container group_num =
     (case find_tag (\<lambda>n. is_tag (u ''label'') n \<and>
                          class_is (u ''group'' @ decimal group_num @ u ''-answer'') n)
             (contents wall_container) of
        Some answer_label \<Rightarrow>
          (case find_tag (div_class (u ''back'')) (contents answer_label) of
             Some back \<Rightarrow> clean_text L (Some back)
           | None \<Rightarrow> [])
      | None \<Rightarrow> [])"

definition wall_group_of :: "platform \<Rightarrow> node \<Rightarrow> nat \<Rightarrow> wall_group list" where
  "wall_group_of L wall_container group_num =
     (let items = group_items L wall_container group_num;
          connection = group_connection L wall_container group_num
      in if items \<noteq> [] \<or> connection \<noteq> [] then [Group items connection] else [])"

definition wall_groups :: "platform \<Rightarrow> node \<Rightarrow> wall_group list" where
  "wall_groups L question_div =
     (case find_tag (div_class (u ''wall-container'')) (contents question_div) of
        Some wall_container \<Rightarrow> concat (map (wall_group_of L wall_container) [1, 2, 3, 4])
      | None \<Rightarrow>
          (let text = clean_text L (Some question_div)
           in if text \<noteq> [] then parse_wall_raw_text text else []))"

fun wall_questions :: "platform \<Rightarrow> node list \<Rightarrow> wall list" where
  "wall_questions L [] = []"
| "wall_questions L (Text s # rest) = wall_questions L rest"
| "wall_questions L (Hidden s # rest) = wall_questions L rest"
| "wall_questions L (Elem n cls as cs # rest) =
     (if next_round (Elem n cls as cs) then []
      else if n = u ''h3'' then
        (case find_next_sibling (div_class (u ''question'')) rest of
           Some (question_div, _) \<Rightarrow>
             \<lparr>w_label = get_text_strip [] (Elem n cls as cs),
              w_groups = wall_groups L question_div\<rparr> # wall_questions L rest
         | None \<Rightarrow> wall_questions L rest)
      else wall_questions L rest)"

definition parse_wall_round :: "platform \<Rightarrow> document \<Rightarrow> wall list" where
  "parse_wall_round L soup =
     (case find_round_header soup 3 of
        None \<Rightarrow> []
      | Some (round_header, following) \<Rightarrow> wall_questions L following)"

section \<open>The missing-vowels round\<close>

definition flush_category :: "ustr \<Rightarrow> vowel_clue list \<Rightarrow> vowel_category list" where
  "flush_category current_category current_clues =
     (if current_category \<noteq> [] \<or> current_clues \<noteq> []
      then [Category current_category current_clues] else [])"

definition card_clue :: "platform \<Rightarrow> node \<Rightarrow> vowel_clue list" where
  "card_clue L child =
     (case find_tag (div_class (u ''card'')) (contents child) of
        Some card_div \<Rightarrow>
          (let clue = (case find_tag (div_class (u ''front'')) (contents card_div) of
                         Some front \<Rightarrow> clean_text L (Some front) | None \<Rightarrow> []);
               answer = (case find_tag (div_class (u ''back'')) (contents card_div) of
                           Some back \<Rightarrow> clean_text L (Some back) | None \<Rightarrow> [])
           in if clue \<noteq> [] \<or> answer \<noteq> [] then [VowelClue clue answer] else [])
      | None \<Rightarrow> [])"

text \<open>
  The loop over \<open>vowel_div.children\<close> with its two variables, and the save of the last
  category after it.
\<close>

fun vowel_children ::
  "platform \<Rightarrow> node list \<Rightarrow> ustr \<Rightarrow> vowel_clue list \<Rightarrow> vowel_category list" where
  "vowel_children L [] current_category current_clues =
     flush_category current_category current_clues"
| "vowel_children L (Text s # rest) current_category current_clues =
     vowel_children L rest current_category current_clues"
| "vowel_children L (Hidden s # rest) current_category current_clues =
     vowel_children L rest current_category current_clues"
| "vowel_children L (Elem n cls as cs # rest) current_category current_clues =
     (if u ''category'' \<in> set cls then
        flush_category current_category current_clues @
        vowel_children L rest (clean_text L (Some (Elem n cls as cs))) []
      else if u ''missing-vowels'' \<in> set cls then
        vowel_children L rest current_category
          (current_clues @ card_clue L (Elem n cls as cs))
      else vowel_children L rest current_category current_clues)"

definition has_vowels :: "ustr \<Rightarrow> bool" where
  "has_vowels word \<longleftrightarrow> (\<exists>c \<in> set word. c \<in> set (u ''aeiouAEIOU''))"

text \<open>The character class \<open>[B-DF-HJ-NP-TV-Zb-df-hj-np-tv-z\s]\<close>.\<close>

definition consonant_or_space :: "nat \<Rightarrow> bool" where
  "consonant_or_space c \<longleftrightarrow>
     (66 \<le> c \<and> c \<le> 68) \<or> (70 \<le> c \<and> c \<le> 72) \<or> (74 \<le> c \<and> c \<le> 78) \<or>
     (80 \<le> c \<and> c \<le> 84) \<or> (86 \<le> c \<and> c \<le> 90) \<or>
     (98 \<le> c \<and> c \<le> 100) \<or> (102 \<le> c \<and> c \<le> 104) \<or> (106 \<le> c \<and> c \<le> 110) \<or>
     (112 \<le> c \<and> c \<le> 116) \<or> (118 \<le> c \<and> c \<le> 122) \<or> is_space c"

definition is_consonant_clue :: "ustr \<Rightarrow> bool" where
  "is_consonant_clue word \<longleftrightarrow> word \<noteq> [] \<and> (\<forall>c \<in> set word. consonant_or_space c)"

text \<open>\<open>current_clues[-1]['answer'] = phrase\<close>, or the append when there is no clue yet.\<close>

fun set_answer :: "vowel_clue \<Rightarrow> ustr \<Rightarrow> vowel_clue" where
  "set_answer (VowelClue clue answer) phrase = VowelClue clue phrase"
| "set_answer (AnswerOnly answer) phrase = AnswerOnly phrase"

definition answer_last :: "vowel_clue list \<Rightarrow> ustr \<Rightarrow> vowel_clue list" where
  "answer_last current_clues phrase =
     (if current_clues \<noteq> [] then butlast current_clues @ [set_answer (last current_clues) phrase]
      else current_clues @ [AnswerOnly phrase])"

text \<open>
  The \<open>while i < len(words)\<close> loop of \<open>parse_vowels_raw_text\<close> on the words from index
  \<open>i\<close> on, with \<open>current_category\<close>, \<open>current_clues\<close> and \<open>categories\<close>; it ends with the
  save of the last category.
\<close>

function vowel_words ::
  "ustr list \<Rightarrow> ustr \<Rightarrow> vowel_clue list \<Rightarrow> vowel_category list \<Rightarrow> vowel_category list" where
  "vowel_words [] current_category current_clues categories =
     categories @ flush_category current_category current_clues"
| "vowel_words (word # rest) current_category current_clues categories =
     (if has_vowels word \<and> \<not> is_consonant_clue word then
        (let phrase = join (u '' '') (word # takeWhile has_vowels rest);
             after = dropWhile has_vowels rest
         in if after \<noteq> [] \<and> \<not> has_vowels (hd after) then
              vowel_words after phrase []
                (categories @ flush_category current_category current_clues)
            else
              vowel_words after current_category (answer_last current_clues phrase) categories)
      else
        (let clue = join (u '' '')
               (word # takeWhile (\<lambda>w. \<not> has_vowels w \<and> is_consonant_clue w) rest);
             after = dropWhile (\<lambda>w. \<not> has_vowels w \<and> is_consonant_clue w) rest
         in vowel_words after current_category (current_clues @ [VowelClue clue []]) categories))"
  by pat_completeness auto
termination
  by (relation "measure (\<lambda>(ws, c, cl, cats). length ws)")
     (auto simp: length_dropWhile_le less_Suc_eq_le)

definition parse_vowels_raw_text :: "ustr \<Rightarrow> vowel_category list" where
  "parse_vowels_raw_text text =
     (let categories = vowel_words (split text) [] [] []
      in if categories \<noteq> [] then categories else [RawCategory text])"

definition parse_vowels_round :: "platform \<Rightarrow> document \<Rightarrow> vowel_category list" where
  "parse_vowels_round L soup =
     (case find_round_header soup 4 of
        None \<Rightarrow> []
      | Some (round_header, following) \<Rightarrow>
          (case find_tag (div_class (u ''vowel-round'')) soup of
             Some vowel_div \<Rightarrow> vowel_children L (contents vowel_div) [] []
           | None \<Rightarrow>
               (case find_next_sibling (\<lambda>n. True) following of
                  Some (content_after_header, _) \<Rightarrow>
                    (let text = clean_text L (Some content_after_header)
                     in if text \<noteq> [] then parse_vowels_raw_text text else [])
                | None \<Rightarrow> [])))"

section \<open>parse_episode\<close>

text \<open>
  The record that \<open>parse_episode\<close> builds from a fetched page; \<open>now\<close> is
  \<open>datetime.now().isoformat()\<close>. \<open>int\<close> of a match of \<open>\d+\<close> is taken to succeed.
  A parsed document and a tag are true in a condition whatever they hold, so \<open>not soup\<close>
  and \<open>a or b\<close> over results of \<open>find\<close> only test for \<open>None\<close>.
\<close>

definition build_episode :: "platform \<Rightarrow> ustr \<Rightarrow> document \<Rightarrow> ustr \<Rightarrow> stub \<Rightarrow> episode" where
  "build_episode L now soup url metadata =
     (let title =
            (case find_tag (is_tag (u ''h1'')) soup of
               Some h1 \<Rightarrow> if stub_title metadata = [] then clean_text L (Some h1)
                          else stub_title metadata
             | None \<Rightarrow> stub_title metadata);
          meta_text = map_option (\<lambda>meta_h2. clean_text L (Some meta_h2))
            (find_tag (\<lambda>n. is_tag (u ''h2'') n \<and> class_is (u ''episode_meta'') n) soup);
          series_number =
            (case meta_text of
               Some t \<Rightarrow> map_option (py_int L) (search_number L (u ''Series'') t)
             | None \<Rightarrow> None);
          episode_number =
            (case meta_text of
               Some t \<Rightarrow>
                 (case search_number L (u ''Episode'') t of
                    Some ds \<Rightarrow>
                      if stub_episode_number metadata = None \<or> stub_episode_number metadata = Some 0
                      then Some (py_int L ds) else stub_episode_number metadata
                  | None \<Rightarrow> stub_episode_number metadata)
             | None \<Rightarrow> stub_episode_number metadata)
      in \<lparr>ep_url = url,
          ep_series = stub_series metadata,
          ep_episode_number = episode_number,
          ep_title = title,
          ep_scraped_at = now,
          ep_series_number = series_number,
          round1 = parse_connection_round L soup 1,
          round2 = parse_connection_round L soup 2,
          round3 = parse_wall_round L soup,
          round4 = parse_vowels_round L soup\<rparr>)"

definition parse_episode ::
  "platform \<Rightarrow> web \<Rightarrow> ustr \<Rightarrow> stub \<Rightarrow> 'a fetcher_scheme \<Rightarrow> episode option \<times> 'a fetcher_scheme" where
  "parse_episode L web url metadata s =
     (case fetch_page web url s of
        (None, s1) \<Rightarrow> (None, s1)
      | (Some soup, s1) \<Rightarrow>
          (Some (build_episode L (py_now L (length (requests s1))) soup url metadata), s1))"

section \<open>get_episode_urls\<close>

text \<open>
  The loop over \<open>content.find_all(['h2', 'a'])\<close> with \<open>current_series\<close> (\<open>None\<close> at
  the start).
\<close>

fun listing_stubs :: "platform \<Rightarrow> ustr option \<Rightarrow> node list \<Rightarrow> stub list" where
  "listing_stubs L current_series [] = []"
| "listing_stubs L current_series (element # rest) =
     (if is_tag (u ''h2'') element then
        (let text = get_text_strip [] element
         in if prefix (u ''Series'') text then listing_stubs L (Some text) rest
            else listing_stubs L current_series rest)
      else if is_tag (u ''a'') element \<and> current_series \<noteq> None \<and> current_series \<noteq> Some [] then
        (let href = attr_or element (u ''href'') []
         in if sublist (u ''/episode/'') href then
              (let title = get_text_strip [] element
               in \<lparr>stub_url = py_urljoin L BASE_URL href,
                   stub_series = (case current_series of Some t \<Rightarrow> t | None \<Rightarrow> []),
                   stub_episode_number = map_option (py_int L) (search_number L (u ''Episode'') title),
                   stub_title = strip (drop_episode_prefix L title)\<rparr>
                  # listing_stubs L current_series rest)
            else listing_stubs L current_series rest)
      else listing_stubs L current_series rest)"

definition listing_content :: "document \<Rightarrow> node list" where
  "listing_content soup =
     (case find_tag (div_class (u ''episode-list'')) soup of
        Some content \<Rightarrow> contents content
      | None \<Rightarrow>
          (case find_tag (div_class (u ''content'')) soup of
             Some content \<Rightarrow> contents content
           | None \<Rightarrow> soup))"

text \<open>The episodes of a fetched listing page: the part of \<open>get_episode_urls\<close> after the fetch.\<close>

definition episode_stubs :: "platform \<Rightarrow> document \<Rightarrow> stub list" where
  "episode_stubs L soup =
     listing_stubs L None
       (find_all (\<lambda>n. is_tag (u ''h2'') n \<or> is_tag (u ''a'') n) (listing_content soup))"

definition get_episode_urls ::
  "platform \<Rightarrow> web \<Rightarrow> 'a fetcher_scheme \<Rightarrow> stub list \<times> 'a fetcher_scheme" where
  "get_episode_urls L web s =
     (case fetch_page web EPISODES_URL s of
        (None, s1) \<Rightarrow> ([], s1)
      | (Some soup, s1) \<Rightarrow> (episode_stubs L soup, s1))"

section \<open>run\<close>

text \<open>
  The two files on durable media: \<open>scrape_progress.json\<close> (the lists \<open>completed\<close> and
  \<open>failed\<close>) and \<open>only_connect_episodes.json\<close>; \<open>None\<close> is a file that does not exist.
\<close>

record disk =
  progress_file :: "(ustr list \<times> ustr list) option"
  output_file :: "episode list option"

text \<open>
  The scraper object with the files it reads and writes; \<open>saves\<close> counts the calls of
  \<open>save_progress\<close>.
\<close>

record scraper = fetcher +
  episodes :: "episode list"
  completed :: "ustr list"
  failed :: "ustr list"
  files :: disk
  saves :: nat

definition new_scraper :: "disk \<Rightarrow> scraper" where
  "new_scraper d =
     \<lparr>delay = MIN_DELAY, requests = [], episodes = [], completed = [], failed = [],
      files = d, saves = 0\<rparr>"

definition load_progress :: "scraper \<Rightarrow> scraper" where
  "load_progress s =
     (let s1 = (case progress_file (files s) of
                  Some (c, f) \<Rightarrow> s\<lparr>completed := c, failed := f\<rparr>
                | None \<Rightarrow> s)
      in case output_file (files s1) of
           Some eps \<Rightarrow> s1\<lparr>episodes := eps\<rparr>
         | None \<Rightarrow> s1)"

definition save_progress :: "scraper \<Rightarrow> scraper" where
  "save_progress s =
     s\<lparr>files := \<lparr>progress_file = Some (completed s, failed s),
                  output_file = Some (episodes s)\<rparr>,
       saves := saves s + 1\<rparr>"

text \<open>
  The body of \<open>for i, ep_info in enumerate(to_scrape)\<close>. No statement of
  \<open>parse_episode\<close> raises in this model, so the \<open>except\<close> branch, which appends to
  \<open>failed\<close> as the \<open>else\<close> branch does, has no case here.
\<close>

definition scrape_one :: "platform \<Rightarrow> web \<Rightarrow> nat \<Rightarrow> stub \<Rightarrow> scraper \<Rightarrow> scraper" where
  "scrape_one L web i ep_info s =
     (let s2 = (case parse_episode L web (stub_url ep_info) ep_info s of
                  (Some ep, s1) \<Rightarrow>
                    s1\<lparr>episodes := episodes s1 @ [ep],
                       completed := completed s1 @ [stub_url ep_info]\<rparr>
                | (None, s1) \<Rightarrow> s1\<lparr>failed := failed s1 @ [stub_url ep_info]\<rparr>)
      in if (i + 1) mod 10 = 0 then save_progress s2 else s2)"

fun scrape_loop :: "platform \<Rightarrow> web \<Rightarrow> nat \<Rightarrow> stub list \<Rightarrow> scraper \<Rightarrow> scraper" where
  "scrape_loop L web i [] s = s"
| "scrape_loop L web i (ep_info # rest) s =
     scrape_loop L web (i + 1) rest (scrape_one L web i ep_info s)"

text \<open>
  \<open>if max_episodes: to_scrape = to_scrape[:max_episodes]\<close>: \<open>None\<close> and 0 keep the
  list, a negative number cuts from the end.
\<close>

definition cap :: "int option \<Rightarrow> 'a list \<Rightarrow> 'a list" where
  "cap max_episodes xs =
     (case max_episodes of
        None \<Rightarrow> xs
      | Some m \<Rightarrow>
          if m = 0 then xs
          else if m > 0 then take (nat m) xs
          else take (length xs - nat (- m)) xs)"

definition work_list :: "int option \<Rightarrow> bool \<Rightarrow> ustr list \<Rightarrow> stub list \<Rightarrow> stub list" where
  "work_list max_episodes resume completed_urls episode_list =
     cap max_episodes
       (if resume then filter (\<lambda>ep. stub_url ep \<notin> set completed_urls) episode_list
        else episode_list)"

definition run :: "platform \<Rightarrow> web \<Rightarrow> int option \<Rightarrow> bool \<Rightarrow> scraper \<Rightarrow> scraper" where
  "run L web max_episodes resume s0 =
     (let s = (if resume then load_progress s0 else s0) in
      case get_episode_urls L web s of
        (episode_list, s1) \<Rightarrow>
          if episode_list = [] then s1
          else save_progress
                 (scrape_loop L web 0
                    (work_list max_episodes resume (completed s1) episode_list) s1))"

section \<open>Notions and inputs of the statements\<close>

text \<open>
  A platform for the examples. On their inputs it agrees with the Python library: the
  texts are ASCII and hold no character reference, and every \<open>href\<close> is an absolute
  path, which \<open>urljoin\<close> appends to \<open>BASE_URL\<close>.
\<close>

definition example_platform :: platform where
  "example_platform =
     \<lparr>py_unescape = (\<lambda>s. s),
      py_urljoin = (\<lambda>base href. base @ href),
      py_lower = map (\<lambda>c. if 65 \<le> c \<and> c \<le> 90 then c + 32 else c),
      py_digit = (\<lambda>c. if 48 \<le> c \<and> c \<le> 57 then Some (c - 48) else None),
      py_now = (\<lambda>n. u ''2024-01-01T00:00:00'')\<rparr>"

definition empty_disk :: disk where
  "empty_disk = \<lparr>progress_file = None, output_file = None\<rparr>"

text \<open>The outcomes that \<open>fetch_page\<close> retries.\<close>

fun transient :: "response \<Rightarrow> bool" where
  "transient (Status code body) \<longleftrightarrow> code = 429 \<or> code \<ge> 500"
| "transient Timeout \<longleftrightarrow> True"
| "transient RequestError \<longleftrightarrow> True"

text \<open>A listing page with one series header and one episode link.\<close>

definition one_listing :: document where
  "one_listing =
     [Elem (u ''h2'') [] [] [Text (u ''Series 1'')],
      Elem (u ''a'') [] [(u ''href'', u ''/episode/1'')] [Text (u ''Episode 1: Pilot'')]]"

text \<open>A site that serves that listing and answers every other request with \<open>r\<close>.\<close>

definition web_of :: "response \<Rightarrow> web" where
  "web_of r n url = (if url = EPISODES_URL then Status 200 one_listing else r)"

text \<open>The responses 429, 500, 200 in this order, and a site that answers 404.\<close>

definition web_429_500_200 :: web where
  "web_429_500_200 n url =
     (if n = 0 then Status 429 [] else if n = 1 then Status 500 []
      else Status 200 [Text (u ''ok'')])"

definition web_404 :: web where
  "web_404 n url = Status 404 []"

text \<open>
  A round 3 whose wall container holds three populated groups and a fourth group with no
  item cell and an empty connection.
\<close>

definition wall_box :: node where
  "wall_box =
     Elem (u ''div'') [u ''wall-container''] []
       [Elem (u ''div'') [u ''group1-clue''] [] [Elem (u ''div'') [u ''clue''] [] [Text (u ''A'')]],
        Elem (u ''div'') [u ''group2-clue''] [] [Elem (u ''div'') [u ''clue''] [] [Text (u ''B'')]],
        Elem (u ''div'') [u ''group3-clue''] [] [Elem (u ''div'') [u ''clue''] [] [Text (u ''C'')]],
        Elem (u ''label'') [u ''group1-answer''] [] [Elem (u ''div'') [u ''back''] [] [Text (u ''X'')]],
        Elem (u ''label'') [u ''group2-answer''] [] [Elem (u ''div'') [u ''back''] [] [Text (u ''Y'')]],
        Elem (u ''label'') [u ''group3-answer''] [] [Elem (u ''div'') [u ''back''] [] [Text (u ''Z'')]],
        Elem (u ''label'') [u ''group4-answer''] [] [Elem (u ''div'') [u ''back''] [] []]]"

definition wall_question :: node where
  "wall_question = Elem (u ''div'') [u ''question''] [] [wall_box]"

definition wall_page :: document where
  "wall_page =
     [Elem (u ''h2'') [] [(u ''id'', u ''round3'')] [Text (u ''Round 3'')],
      Elem (u ''h3'') [] [] [Text (u ''Lion'')],
      wall_question]"

text \<open>Clue cells: with an audio link and an image, with an image and a text, with a card, with
  a placeholder as only text, and with a card whose back reads \<open>?\<close>.\<close>

definition audio_cell :: node where
  "audio_cell = Elem (u ''div'') [u ''clue''] []
     [Elem (u ''a'') [] [(u ''href'', u ''/m/1.mp3'')] [Text (u ''Play'')],
      Elem (u ''img'') [] [(u ''src'', u ''/i/1.png'')] []]"

definition image_cell :: node where
  "image_cell = Elem (u ''div'') [u ''clue''] []
     [Elem (u ''img'') [] [(u ''src'', u ''/i/1.png''), (u ''alt'', u ''Cat'')] [],
      Text (u ''Clue 2'')]"

definition card_cell :: node where
  "card_cell = Elem (u ''div'') [u ''clue''] []
     [Elem (u ''div'') [u ''card''] []
        [Elem (u ''div'') [u ''front''] [] [Text (u ''Clue 2'')],
         Elem (u ''div'') [u ''back''] [] [Text (u ''Dog'')]]]"

definition placeholder_cell :: node where
  "placeholder_cell = Elem (u ''div'') [u ''clue''] [] [Text (u ''Clue 3'')]"

definition question_card_cell :: node where
  "question_card_cell = Elem (u ''div'') [u ''clue''] []
     [Elem (u ''div'') [u ''card''] [] [Elem (u ''div'') [u ''back''] [] [Text (u ''?'')]]]"

text \<open>
  A round section is absent from a document when no \<open>h2\<close> of it has the id of the round
  or a string that contains \<open>Round\<close> and the number.
\<close>

definition round_header_absent :: "document \<Rightarrow> nat \<Rightarrow> bool" where
  "round_header_absent soup round_num \<longleftrightarrow>
     find_all (\<lambda>n. is_tag (u ''h2'') n \<and>
                 (get_attr n (u ''id'') = Some (u ''round'' @ decimal round_num) \<or>
                  string_search (u ''Round '' @ decimal round_num) n)) soup = []"

text \<open>
  The stub of the episode of \<open>one_listing\<close>, and an episode page with a title and no
  round.
\<close>

definition pilot_stub :: stub where
  "pilot_stub = \<lparr>stub_url = u ''https://ocdb.cc/episode/1'', stub_series = u ''Series 1'',
     stub_episode_number = Some 1, stub_title = u ''Pilot''\<rparr>"

definition bare_page :: document where
  "bare_page = [Elem (u ''h1'') [] [] [Text (u ''Pilot'')], Elem (u ''h2'') [] [] [Text (u ''Credits'')]]"

definition web_bare :: web where
  "web_bare n url = Status 200 bare_page"

text \<open>A site that serves a listing and answers every other request with \<open>r\<close>.\<close>

definition site :: "document \<Rightarrow> response \<Rightarrow> web" where
  "site listing r n url = (if url = EPISODES_URL then Status 200 listing else r)"

text \<open>A listing of two episodes, and the files after a run that completed the first.\<close>

definition two_listing :: document where
  "two_listing =
     [Elem (u ''h2'') [] [] [Text (u ''Series 1'')],
      Elem (u ''a'') [] [(u ''href'', u ''/episode/1'')] [Text (u ''Episode 1: Pilot'')],
      Elem (u ''a'') [] [(u ''href'', u ''/episode/2'')] [Text (u ''Episode 2: Two'')]]"

definition two_stubs :: "stub list" where
  "two_stubs =
     [pilot_stub,
      \<lparr>stub_url = u ''https://ocdb.cc/episode/2'', stub_series = u ''Series 1'',
        stub_episode_number = Some 2, stub_title = u ''Two''\<rparr>]"

definition pilot_episode :: episode where
  "pilot_episode =
     build_episode example_platform (u ''2024-01-01T00:00:00'') bare_page
       (stub_url pilot_stub) pilot_stub"

definition resumed_disk :: disk where
  "resumed_disk =
     \<lparr>progress_file = Some ([stub_url pilot_stub], []), output_file = Some [pilot_episode]\<rparr>"

text \<open>A listing that links the same episode twice.\<close>

definition twice_listing :: document where
  "twice_listing =
     [Elem (u ''h2'') [] [] [Text (u ''Series 1'')],
      Elem (u ''a'') [] [(u ''href'', u ''/episode/1'')] [Text (u ''Episode 1: Pilot'')],
      Elem (u ''a'') [] [(u ''href'', u ''/episode/1'')] [Text (u ''Episode 1: Pilot'')]]"

text \<open>A listing of ten episodes, and its stubs.\<close>

definition ten_listing :: document where
  "ten_listing =
     [Elem (u ''h2'') [] [] [Text (u ''Series 1'')],
      Elem (u ''a'') [] [(u ''href'', u ''/episode/0'')] [Text (u ''E'')],
      Elem (u ''a'') [] [(u ''href'', u ''/episode/1'')] [Text (u ''E'')],
      Elem (u ''a'') [] [(u ''href'', u ''/episode/2'')] [Text (u ''E'')],
      Elem (u ''a'') [] [(u ''href'', u ''/episode/3'')] [Text (u ''E'')],
      Elem (u ''a'') [] [(u ''href'', u ''/episode/4'')] [Text (u ''E'')],
      Elem (u ''a'') [] [(u ''href'', u ''/episode/5'')] [Text (u ''E'')],
      Elem (u ''a'') [] [(u ''href'', u ''/episode/6'')] [Text (u ''E'')],
      Elem (u ''a'') [] [(u ''href'', u ''/episode/7'')] [Text (u ''E'')],
      Elem (u ''a'') [] [(u ''href'', u ''/episode/8'')] [Text (u ''E'')],
      Elem (u ''a'') [] [(u ''href'', u ''/episode/9'')] [Text (u ''E'')]]"

definition ten_stubs :: "stub list" where
  "ten_stubs =
     [\<lparr>stub_url = u ''https://ocdb.cc/episode/0'', stub_series = u ''Series 1'',
        stub_episode_number = None, stub_title = u ''E''\<rparr>,
      \<lparr>stub_url = u ''https://ocdb.cc/episode/1'', stub_series = u ''Series 1'',
        stub_episode_number = None, stub_title = u ''E''\<rparr>,
      \<lparr>stub_url = u ''https://ocdb.cc/episode/2'', stub_series = u ''Series 1'',
        stub_episode_number = None, stub_title = u ''E''\<rparr>,
      \<lparr>stub_url = u ''https://ocdb.cc/episode/3'', stub_series = u ''Series 1'',
        stub_episode_number = None, stub_title = u ''E''\<rparr>,
      \<lparr>stub_url = u ''https://ocdb.cc/episode/4'', stub_series = u ''Series 1'',
        stub_episode_number = None, stub_title = u ''E''\<rparr>,
      \<lparr>stub_url = u ''https://ocdb.cc/episode/5'', stub_series = u ''Series 1'',
        stub_episode_number = None, stub_title = u ''E''\<rparr>,
      \<lparr>stub_url = u ''https://ocdb.cc/episode/6'', stub_series = u ''Series 1'',
        stub_episode_number = None, stub_title = u ''E''\<rparr>,
      \<lparr>stub_url = u ''https://ocdb.cc/episode/7'', stub_series = u ''Series 1'',
        stub_episode_number = None, stub_title = u ''E''\<rparr>,
      \<lparr>stub_url = u ''https://ocdb.cc/episode/8'', stub_series = u ''Series 1'',
        stub_episode_number = None, stub_title = u ''E''\<rparr>,
      \<lparr>stub_url = u ''https://ocdb.cc/episode/9'', stub_series = u ''Series 1'',
        stub_episode_number = None, stub_title = u ''E''\<rparr>]"

text \<open>
  The records of a scraper are in order when no two of them have the same URL and each
  URL is in the completed list; the files are in order when the stored records and the
  stored completed list are.
\<close>

definition records_ok :: "scraper \<Rightarrow> bool" where
  "records_ok s \<longleftrightarrow>
     distinct (map ep_url (episodes s)) \<and> set (map ep_url (episodes s)) \<subseteq> set (completed s)"

definition disk_ok :: "disk \<Rightarrow> bool" where
  "disk_ok d \<longleftrightarrow>
     (case output_file d of
        None \<Rightarrow> True
      | Some eps \<Rightarrow>
          distinct (map ep_url eps) \<and>
          set (map ep_url eps) \<subseteq> (case progress_file d of None \<Rightarrow> {} | Some (c, f) \<Rightarrow> set c))"

text \<open>
  A sequence of runs, each one a new process with its site, its cap and its resume flag,
  on the files the run before left; and the condition that no listing of these runs
  holds a URL twice.
\<close>

fun crawl :: "platform \<Rightarrow> (web \<times> int option \<times> bool) list \<Rightarrow> disk \<Rightarrow> disk" where
  "crawl L [] d = d"
| "crawl L ((web, max_episodes, resume) # rest) d =
     crawl L rest (files (run L web max_episodes resume (new_scraper d)))"

fun listings_distinct :: "platform \<Rightarrow> (web \<times> int option \<times> bool) list \<Rightarrow> disk \<Rightarrow> bool" where
  "listings_distinct L [] d = True"
| "listings_distinct L ((web, max_episodes, resume) # rest) d =
     (distinct (map stub_url (fst (get_episode_urls L web
         (if resume then load_progress (new_scraper d) else new_scraper d)))) \<and>
      listings_distinct L rest (files (run L web max_episodes resume (new_scraper d))))"

section \<open>Properties of the rate limiter\<close>

lemma success_bounds:
  "MIN_DELAY \<le> d \<Longrightarrow> d \<le> MAX_DELAY * 10 \<Longrightarrow>
     MIN_DELAY \<le> success d \<and> success d \<le> MAX_DELAY * 10"
  by (simp add: success_def MIN_DELAY_def MAX_DELAY_def max_def)

lemma failure_bounds:
  "MIN_DELAY \<le> d \<Longrightarrow> d \<le> MAX_DELAY * 10 \<Longrightarrow>
     MIN_DELAY \<le> failure d \<and> failure d \<le> MAX_DELAY * 10"
  by (simp add: failure_def MIN_DELAY_def MAX_DELAY_def BACKOFF_FACTOR_def min_def)

lemma limiter_step_bounds:
  "MIN_DELAY \<le> d \<Longrightarrow> d \<le> MAX_DELAY * 10 \<Longrightarrow>
     MIN_DELAY \<le> limiter_step d c \<and> limiter_step d c \<le> MAX_DELAY * 10"
  by (cases c) (simp_all add: success_bounds failure_bounds)

lemma foldl_limiter_bounds:
  "MIN_DELAY \<le> d \<Longrightarrow> d \<le> MAX_DELAY * 10 \<Longrightarrow>
     MIN_DELAY \<le> foldl limiter_step d cs \<and> foldl limiter_step d cs \<le> MAX_DELAY * 10"
proof (induction cs arbitrary: d)
  case Nil
  then show ?case by simp
next
  case (Cons c cs)
  from limiter_step_bounds [OF Cons.prems]
  have "MIN_DELAY \<le> limiter_step d c" and "limiter_step d c \<le> MAX_DELAY * 10"
    by simp_all
  from Cons.IH [OF this] show ?case by simp
qed

text \<open>
  C2. With floor \<open>MIN_DELAY\<close> (1.5) and ceiling \<open>MAX_DELAY * 10\<close> (30): for a delay
  between floor and ceiling, \<open>failure\<close> strictly increases it unless it is at the
  ceiling and \<open>success\<close> strictly decreases it unless it is at the floor; and after any
  sequence of \<open>success\<close>/\<open>failure\<close> calls from the initial state the delay is between
  floor and ceiling.
\<close>

theorem rate_limiter_monotone_bounded:
  "(MIN_DELAY \<le> d \<and> d \<le> MAX_DELAY * 10 \<longrightarrow>
      (d < MAX_DELAY * 10 \<longrightarrow> d < failure d) \<and>
      (d = MAX_DELAY * 10 \<longrightarrow> failure d = d) \<and>
      (MIN_DELAY < d \<longrightarrow> success d < d) \<and>
      (d = MIN_DELAY \<longrightarrow> success d = d)) \<and>
   MIN_DELAY \<le> limiter_run calls \<and> limiter_run calls \<le> MAX_DELAY * 10"
proof -
  have "MIN_DELAY \<le> limiter_run calls \<and> limiter_run calls \<le> MAX_DELAY * 10"
    unfolding limiter_run_def
    by (rule foldl_limiter_bounds) (simp_all add: MIN_DELAY_def MAX_DELAY_def)
  moreover have "MIN_DELAY \<le> d \<and> d \<le> MAX_DELAY * 10 \<longrightarrow>
      (d < MAX_DELAY * 10 \<longrightarrow> d < failure d) \<and>
      (d = MAX_DELAY * 10 \<longrightarrow> failure d = d) \<and>
      (MIN_DELAY < d \<longrightarrow> success d < d) \<and>
      (d = MIN_DELAY \<longrightarrow> success d = d)"
    by (simp add: success_def failure_def MIN_DELAY_def MAX_DELAY_def BACKOFF_FACTOR_def
        min_def max_def)
  ultimately show ?thesis by blast
qed

theorem rate_limiter_monotone_bounded_witness:
  "MIN_DELAY \<le> 3 \<and> 3 < MAX_DELAY * 10 \<and> MIN_DELAY < 3 \<and>
   failure 3 = 6 \<and> 3 < failure 3 \<and> success 3 = 27 / 10 \<and> success 3 < 3 \<and>
   limiter_run [OnFailure, OnSuccess] = 27 / 10 \<and>
   MIN_DELAY \<le> limiter_run [OnFailure, OnSuccess] \<and>
   limiter_run [OnFailure, OnSuccess] \<le> MAX_DELAY * 10"
  using rate_limiter_monotone_bounded [of 3 "[OnFailure, OnSuccess]"]
  by (simp add: success_def failure_def MIN_DELAY_def MAX_DELAY_def BACKOFF_FACTOR_def
      limiter_run_def)

section \<open>Properties of fetch_page\<close>

lemma MAX_RETRIES_Suc: "MAX_RETRIES = Suc (Suc (Suc (Suc (Suc 0))))"
  by (simp add: MAX_RETRIES_def eval_nat_numeral)

lemma fetch_attempts_transient:
  "(\<forall>k<n. transient (web (length (requests s) + k) url)) \<Longrightarrow>
     fst (fetch_attempts web url n s) = None"
proof (induction n arbitrary: s)
  case 0
  then show ?case by simp
next
  case (Suc n)
  let ?s1 = "on_failure (s\<lparr>requests := requests s @ [url]\<rparr>)"
  have len: "length (requests ?s1) = Suc (length (requests s))"
    by (simp add: on_failure_def)
  have "\<forall>k<n. transient (web (length (requests ?s1) + k) url)"
  proof (intro allI impI)
    fix k assume "k < n"
    then have "Suc k < Suc n" by simp
    with Suc.prems have "transient (web (length (requests s) + Suc k) url)" by blast
    then show "transient (web (length (requests ?s1) + k) url)" by (simp add: len)
  qed
  then have ih: "fst (fetch_attempts web url n ?s1) = None" by (rule Suc.IH)
  from Suc.prems have t0: "transient (web (length (requests s)) url)"
    by (metis add.right_neutral zero_less_Suc)
  show ?case
  proof (cases "web (length (requests s)) url")
    case (Status code body)
    with t0 have "code = 429 \<or> code \<ge> 500" by simp
    with Status ih show ?thesis by (auto simp: Let_def)
  next
    case Timeout
    with ih show ?thesis by (simp add: Let_def)
  next
    case RequestError
    with ih show ?thesis by (simp add: Let_def)
  qed
qed

lemma fetch_page_rejected:
  "web (length (requests s)) url = Status c b \<Longrightarrow> c \<noteq> 200 \<Longrightarrow> c \<noteq> 429 \<Longrightarrow> c < 500 \<Longrightarrow>
     fetch_page web url s = (None, s\<lparr>requests := requests s @ [url]\<rparr>)"
  by (simp add: fetch_page_def MAX_RETRIES_Suc Let_def)

lemma fetch_attempts_length:
  "length (requests (snd (fetch_attempts web url n s))) \<le> length (requests s) + n"
proof (induction n arbitrary: s)
  case 0
  then show ?case by simp
next
  case (Suc n)
  have step: "length (requests (snd (fetch_attempts web url n
                 (on_failure (s\<lparr>requests := requests s @ [url]\<rparr>)))))
      \<le> length (requests s) + Suc n"
    using Suc.IH [of "on_failure (s\<lparr>requests := requests s @ [url]\<rparr>)"]
    by (simp add: on_failure_def)
  show ?case
    using step
    by (simp add: Let_def on_success_def split: response.split)
qed

text \<open>
  C1. \<open>fetch_page\<close> issues at most 5 requests. When the responses are 429, 500, 200 in
  this order, exactly 3 requests are issued and the result is the parsed document of the
  third. When the first response has a status other than 200, 429 and 500 or more,
  exactly 1 request is issued and \<open>fetch_page\<close> returns \<open>None\<close> at once, the delay
  unchanged.
\<close>

theorem fetch_page_request_count:
  "length (requests (snd (fetch_page web url s))) \<le> length (requests s) + 5 \<and>
   (wa (length (requests s)) url = Status 429 b1 \<and>
    wa (length (requests s) + 1) url = Status 500 b2 \<and>
    wa (length (requests s) + 2) url = Status 200 b3 \<longrightarrow>
      fst (fetch_page wa url s) = Some b3 \<and>
      requests (snd (fetch_page wa url s)) = requests s @ [url, url, url]) \<and>
   (wb (length (requests s)) url = Status c b \<and> c \<noteq> 200 \<and> c \<noteq> 429 \<and> c < 500 \<longrightarrow>
      fetch_page wb url s = (None, s\<lparr>requests := requests s @ [url]\<rparr>))"
proof (intro conjI impI)
  show "length (requests (snd (fetch_page web url s))) \<le> length (requests s) + 5"
    using fetch_attempts_length [of web url MAX_RETRIES s]
    by (simp add: fetch_page_def MAX_RETRIES_def)
next
  assume h: "wa (length (requests s)) url = Status 429 b1 \<and>
    wa (length (requests s) + 1) url = Status 500 b2 \<and>
    wa (length (requests s) + 2) url = Status 200 b3"
  then have r: "fetch_page wa url s =
     (Some b3, on_success (on_failure (on_failure (s\<lparr>requests := requests s @ [url]\<rparr>)
          \<lparr>requests := requests s @ [url] @ [url]\<rparr>)
          \<lparr>requests := requests s @ [url] @ [url] @ [url]\<rparr>))"
    by (simp add: fetch_page_def MAX_RETRIES_Suc Let_def on_failure_def on_success_def)
  show "fst (fetch_page wa url s) = Some b3" by (simp add: r)
  show "requests (snd (fetch_page wa url s)) = requests s @ [url, url, url]"
    by (simp add: r on_success_def)
next
  assume "wb (length (requests s)) url = Status c b \<and> c \<noteq> 200 \<and> c \<noteq> 429 \<and> c < 500"
  then show "fetch_page wb url s = (None, s\<lparr>requests := requests s @ [url]\<rparr>)"
    by (simp add: fetch_page_rejected)
qed

theorem fetch_page_request_count_witness:
  "web_429_500_200 0 (u ''x'') = Status 429 [] \<and>
   web_429_500_200 1 (u ''x'') = Status 500 [] \<and>
   web_429_500_200 2 (u ''x'') = Status 200 [Text (u ''ok'')] \<and>
   fst (fetch_page web_429_500_200 (u ''x'') \<lparr>delay = MIN_DELAY, requests = []\<rparr>)
     = Some [Text (u ''ok'')] \<and>
   requests (snd (fetch_page web_429_500_200 (u ''x'') \<lparr>delay = MIN_DELAY, requests = []\<rparr>))
     = [u ''x'', u ''x'', u ''x''] \<and>
   web_404 0 (u ''x'') = Status 404 [] \<and>
   fetch_page web_404 (u ''x'') \<lparr>delay = MIN_DELAY, requests = []\<rparr>
     = (None, \<lparr>delay = MIN_DELAY, requests = [u ''x'']\<rparr>) \<and>
   length (requests (snd (fetch_page (\<lambda>n url. Timeout) (u ''x'')
     \<lparr>delay = MIN_DELAY, requests = []\<rparr>))) \<le> 5"
  using fetch_page_request_count [of "\<lambda>n url. Timeout" "u ''x''"
      "\<lparr>delay = MIN_DELAY, requests = []\<rparr>" web_429_500_200 "[]" "[]" "[Text (u ''ok'')]"
      web_404 404 "[]"]
  by (simp add: web_429_500_200_def web_404_def)

lemma fetch_attempts_frame:
  fixes s :: scraper
  shows "episodes (snd (fetch_attempts web url n s)) = episodes s \<and>
         completed (snd (fetch_attempts web url n s)) = completed s \<and>
         failed (snd (fetch_attempts web url n s)) = failed s \<and>
         files (snd (fetch_attempts web url n s)) = files s \<and>
         saves (snd (fetch_attempts web url n s)) = saves s"
proof (induction n arbitrary: s)
  case 0
  then show ?case by simp
next
  case (Suc n)
  show ?case
    using Suc.IH [of "on_failure (s\<lparr>requests := requests s @ [url]\<rparr>)"]
    by (simp add: Let_def on_failure_def on_success_def split: response.split)
qed

lemma fetch_page_frame:
  fixes s :: scraper
  shows "episodes (snd (fetch_page web url s)) = episodes s \<and>
         completed (snd (fetch_page web url s)) = completed s \<and>
         failed (snd (fetch_page web url s)) = failed s \<and>
         files (snd (fetch_page web url s)) = files s \<and>
         saves (snd (fetch_page web url s)) = saves s"
  unfolding fetch_page_def by (rule fetch_attempts_frame)

lemma parse_episode_snd: "snd (parse_episode L web url m s) = snd (fetch_page web url s)"
  by (simp add: parse_episode_def split: prod.split option.split)

lemma parse_episode_None: "fst (parse_episode L web url m s) = None \<longleftrightarrow> fst (fetch_page web url s) = None"
  by (simp add: parse_episode_def split: prod.split option.split)

text \<open>
  C4, as the code has it. \<open>fetch_page\<close> returns the same \<open>None\<close> when the retries are
  exhausted (five transient outcomes) and when a status is rejected; and when
  \<open>parse_episode\<close> returns \<open>None\<close>, the loop of \<open>run\<close> appends the URL alone to the
  list \<open>failed\<close>, leaving \<open>completed\<close> and the episodes as they were.
\<close>

theorem failures_untagged:
  "((\<forall>k<5. transient (wa (length (requests s) + k) url)) \<longrightarrow> fst (fetch_page wa url s) = None) \<and>
   (wb (length (requests s)) url = Status c b \<and> c \<noteq> 200 \<and> c \<noteq> 429 \<and> c < 500 \<longrightarrow>
      fst (fetch_page wb url s) = None) \<and>
   (fst (parse_episode L web (stub_url e) e t) = None \<longrightarrow>
      failed (scrape_one L web i e t) = failed t @ [stub_url e] \<and>
      completed (scrape_one L web i e t) = completed t \<and>
      episodes (scrape_one L web i e t) = episodes t)"
proof (intro conjI impI)
  assume "\<forall>k<5. transient (wa (length (requests s) + k) url)"
  then show "fst (fetch_page wa url s) = None"
    unfolding fetch_page_def MAX_RETRIES_def by (rule fetch_attempts_transient)
next
  assume "wb (length (requests s)) url = Status c b \<and> c \<noteq> 200 \<and> c \<noteq> 429 \<and> c < 500"
  then show "fst (fetch_page wb url s) = None"
    by (simp add: fetch_page_rejected)
next
  assume a: "fst (parse_episode L web (stub_url e) e t) = None"
  obtain r t1 where p: "parse_episode L web (stub_url e) e t = (r, t1)" by (cases "parse_episode L web (stub_url e) e t")
  with a have r: "r = None" by simp
  have "t1 = snd (fetch_page web (stub_url e) t)"
    using p parse_episode_snd [of L web "stub_url e" e t] by simp
  then have t1: "failed t1 = failed t \<and> completed t1 = completed t \<and> episodes t1 = episodes t"
    by (simp add: fetch_page_frame)
  show "failed (scrape_one L web i e t) = failed t @ [stub_url e]"
    using p r t1 by (simp add: scrape_one_def save_progress_def Let_def)
  show "completed (scrape_one L web i e t) = completed t"
    using p r t1 by (simp add: scrape_one_def save_progress_def Let_def)
  show "episodes (scrape_one L web i e t) = episodes t"
    using p r t1 by (simp add: scrape_one_def save_progress_def Let_def)
qed

theorem failures_untagged_witness:
  "transient (web_of (Status 503 []) 0 (u ''https://ocdb.cc/episode/1'')) \<and>
   transient (web_of (Status 503 []) 4 (u ''https://ocdb.cc/episode/1'')) \<and>
   fst (fetch_page (web_of (Status 503 [])) (u ''https://ocdb.cc/episode/1'') (new_scraper empty_disk)) = None \<and>
   web_of (Status 404 []) (length (requests (new_scraper empty_disk))) (u ''https://ocdb.cc/episode/1'') = Status 404 [] \<and>
   fst (fetch_page (web_of (Status 404 [])) (u ''https://ocdb.cc/episode/1'') (new_scraper empty_disk)) = None \<and>
   fst (parse_episode example_platform (web_of (Status 404 [])) (u ''https://ocdb.cc/episode/1'')
          \<lparr>stub_url = u ''https://ocdb.cc/episode/1'', stub_series = u ''Series 1'',
            stub_episode_number = Some 1, stub_title = u ''Pilot''\<rparr> (new_scraper empty_disk)) = None \<and>
   failed (scrape_one example_platform (web_of (Status 404 [])) 0
          \<lparr>stub_url = u ''https://ocdb.cc/episode/1'', stub_series = u ''Series 1'',
            stub_episode_number = Some 1, stub_title = u ''Pilot''\<rparr> (new_scraper empty_disk)) = [u ''https://ocdb.cc/episode/1'']"
proof -
  have ne: "u ''https://ocdb.cc/episode/1'' \<noteq> EPISODES_URL"
    by (simp add: EPISODES_URL_def BASE_URL_def)
  have h1: "\<forall>k<5. transient (web_of (Status 503 []) (length (requests (new_scraper empty_disk)) + k) (u ''https://ocdb.cc/episode/1''))"
    using ne by (simp add: web_of_def)
  have h2: "web_of (Status 404 []) (length (requests (new_scraper empty_disk))) (u ''https://ocdb.cc/episode/1'') = Status 404 []"
    using ne by (simp add: web_of_def)
  have h3: "fst (parse_episode example_platform (web_of (Status 404 [])) (u ''https://ocdb.cc/episode/1'')
          \<lparr>stub_url = u ''https://ocdb.cc/episode/1'', stub_series = u ''Series 1'',
            stub_episode_number = Some 1, stub_title = u ''Pilot''\<rparr> (new_scraper empty_disk)) = None"
    using h2 by (simp add: parse_episode_None fetch_page_rejected)
  have h0: "transient (web_of (Status 503 []) 0 (u ''https://ocdb.cc/episode/1'')) \<and>
      transient (web_of (Status 503 []) 4 (u ''https://ocdb.cc/episode/1''))"
    using ne by (simp add: web_of_def)
  show ?thesis
    using h0 h1 h2 h3
      failures_untagged [of "web_of (Status 503 [])" "new_scraper empty_disk" "u ''https://ocdb.cc/episode/1''"
        "web_of (Status 404 [])" 404 "[]" example_platform "web_of (Status 404 [])"
        "\<lparr>stub_url = u ''https://ocdb.cc/episode/1'', stub_series = u ''Series 1'',
            stub_episode_number = Some 1, stub_title = u ''Pilot''\<rparr>" "new_scraper empty_disk" 0]
    by (simp add: new_scraper_def)
qed

lemma one_listing_fetch:
  "get_episode_urls example_platform (web_of r) (new_scraper empty_disk) =
    ([\<lparr>stub_url = u ''https://ocdb.cc/episode/1'', stub_series = u ''Series 1'',
       stub_episode_number = Some 1, stub_title = u ''Pilot''\<rparr>],
     (new_scraper empty_disk)\<lparr>delay := MIN_DELAY, requests := [EPISODES_URL]\<rparr>)"
  by (simp add: get_episode_urls_def episode_stubs_def fetch_page_def MAX_RETRIES_Suc web_of_def Let_def
      new_scraper_def on_success_def success_def MIN_DELAY_def
      one_listing_def listing_content_def find_tag_def div_class_def class_is_def
      is_tag_def get_text_strip_def strip_def is_space_def attr_or_def
      sublist_code prefix_code example_platform_def BASE_URL_def
      match_number_def is_digit_def py_int_def drop_episode_prefix_def)

text \<open>
  C4 as stated fails: an episode that answers 503 five times and an episode that answers
  404 give the same result of \<open>fetch_page\<close> and the same progress file, a list with the
  URL and no reason.
\<close>

theorem failure_reason_counterexample:
  "fst (fetch_page (web_of (Status 503 [])) (u ''https://ocdb.cc/episode/1'') (new_scraper empty_disk)) = None \<and>
   fst (fetch_page (web_of (Status 404 [])) (u ''https://ocdb.cc/episode/1'') (new_scraper empty_disk)) = None \<and>
   progress_file (files (run example_platform (web_of (Status 503 [])) None True (new_scraper empty_disk)))
     = Some ([], [u ''https://ocdb.cc/episode/1'']) \<and>
   progress_file (files (run example_platform (web_of (Status 404 [])) None True (new_scraper empty_disk)))
     = Some ([], [u ''https://ocdb.cc/episode/1''])"
proof -
  have ne: "u ''https://ocdb.cc/episode/1'' \<noteq> EPISODES_URL"
    by (simp add: EPISODES_URL_def BASE_URL_def)
  have lp: "load_progress (new_scraper empty_disk) = new_scraper empty_disk"
    by (simp add: load_progress_def new_scraper_def empty_disk_def)
  have a: "fst (fetch_page (web_of (Status 503 [])) (u ''https://ocdb.cc/episode/1'') (new_scraper empty_disk)) = None"
    using ne by (simp add: fetch_page_def MAX_RETRIES_Suc web_of_def Let_def)
  have b: "fst (fetch_page (web_of (Status 404 [])) (u ''https://ocdb.cc/episode/1'') (new_scraper empty_disk)) = None"
    using ne by (simp add: fetch_page_def MAX_RETRIES_Suc web_of_def Let_def)
  have c: "progress_file (files (run example_platform (web_of (Status 503 [])) None True (new_scraper empty_disk)))
     = Some ([], [u ''https://ocdb.cc/episode/1''])"
    using ne
    apply (simp add: run_def lp one_listing_fetch work_list_def cap_def)
    apply (simp add: scrape_one_def parse_episode_def fetch_page_def MAX_RETRIES_Suc web_of_def
        Let_def save_progress_def new_scraper_def on_failure_def)
    done
  have d: "progress_file (files (run example_platform (web_of (Status 404 [])) None True (new_scraper empty_disk)))
     = Some ([], [u ''https://ocdb.cc/episode/1''])"
    using ne
    apply (simp add: run_def lp one_listing_fetch work_list_def cap_def)
    apply (simp add: scrape_one_def parse_episode_def fetch_page_def MAX_RETRIES_Suc web_of_def
        Let_def save_progress_def new_scraper_def on_failure_def)
    done
  from a b c d show ?thesis by blast
qed

section \<open>Properties of the wall round\<close>

lemma decimal_digit: "n < 10 \<Longrightarrow> decimal n = [48 + n]"
  by (simp add: decimal.simps)

text \<open>
  C3, as the code has it. When the question block has a wall container, the wall holds
  exactly the groups, in the order of their numbers 1 to 4, whose items or connection
  are not empty: at most 4, and never a group with empty items and an empty connection.
\<close>

theorem wall_groups_populated:
  "find_tag (div_class (u ''wall-container'')) (contents question_div) = Some wall_container \<longrightarrow>
     wall_groups L question_div =
       map (\<lambda>k. Group (group_items L wall_container k) (group_connection L wall_container k))
         (filter (\<lambda>k. group_items L wall_container k \<noteq> [] \<or>
                       group_connection L wall_container k \<noteq> [])
            [1, 2, 3, 4]) \<and>
     length (wall_groups L question_div) \<le> 4 \<and>
     Group [] [] \<notin> set (wall_groups L question_div)"
  by (auto simp: wall_groups_def wall_group_of_def Let_def)

theorem wall_groups_populated_witness:
  "find_tag (div_class (u ''wall-container'')) (contents wall_question) = Some wall_box \<and>
   length (wall_groups example_platform wall_question) \<le> 4 \<and>
   Group [] [] \<notin> set (wall_groups example_platform wall_question)"
proof -
  have h: "find_tag (div_class (u ''wall-container'')) (contents wall_question) = Some wall_box"
    by (simp add: wall_question_def wall_box_def find_tag_def div_class_def is_tag_def class_is_def)
  from h wall_groups_populated [of wall_question wall_box example_platform]
  show ?thesis by blast
qed

text \<open>
  C3 as stated fails: on the page with three populated groups and a fourth group marked
  \<open>group4-answer\<close> with no item and an empty connection, the wall has 3 groups, and no
  fourth group with empty items and connection.
\<close>

theorem wall_empty_group_counterexample:
  "parse_wall_round example_platform wall_page =
     [\<lparr>w_label = u ''Lion'',
       w_groups = [Group [u ''A''] (u ''X''), Group [u ''B''] (u ''Y''),
                   Group [u ''C''] (u ''Z'')]\<rparr>]"
  by (simp add: parse_wall_round_def wall_page_def wall_question_def wall_box_def
      find_round_header_def is_tag_def decimal_digit
      next_round_def get_text_def sublist_code prefix_code div_class_def class_is_def
      wall_groups_def find_tag_def wall_group_of_def group_items_def group_connection_def
      class_search_def clean_text_def get_text_strip_def strip_def is_space_def
      example_platform_def Let_def)

section \<open>Properties of the clue extraction\<close>

text \<open>
  C8, as the code has it. A clue cell is classified in the order audio link (an \<open>a\<close>
  whose \<open>href\<close> ends in \<open>.mp3\<close>), image, card, plain text: an audio link gives an
  audio clue with its URL whatever else the cell holds; otherwise an image gives an image
  clue; otherwise a card gives the text of its back when that is not empty, whatever the
  text is; otherwise the text of the cell is kept unless it is empty or one of the
  placeholders \<open>Clue 2\<close>, \<open>Clue 3\<close>, \<open>Clue 4\<close>, \<open>?\<close>. A container whose only clue
  cell holds only a link ending in \<open>.mp3\<close> yields one audio clue with that URL.
\<close>

theorem clue_classification:
  "(find_tag (\<lambda>n. is_tag (u ''a'') n \<and> mp3_href n) (contents c1) = Some audio_link \<longrightarrow>
      clue_of L c1 = [AudioClue (attr_or audio_link (u ''href'') [])]) \<and>
   (find_tag (\<lambda>n. is_tag (u ''a'') n \<and> mp3_href n) (contents c2) = None \<and>
    find_tag (is_tag (u ''img'')) (contents c2) = Some img \<longrightarrow>
      clue_of L c2 = [ImageClue (attr_or img (u ''src'') []) (attr_or img (u ''alt'') [])]) \<and>
   (find_tag (\<lambda>n. is_tag (u ''a'') n \<and> mp3_href n) (contents c3) = None \<and>
    find_tag (is_tag (u ''img'')) (contents c3) = None \<and>
    find_tag (div_class (u ''card'')) (contents c3) = Some card_div \<and>
    find_tag (div_class (u ''back'')) (contents card_div) = Some back \<longrightarrow>
      clue_of L c3 =
        (if clean_text L (Some back) = [] then [] else [TextClue (clean_text L (Some back))])) \<and>
   (find_tag (\<lambda>n. is_tag (u ''a'') n \<and> mp3_href n) (contents c4) = None \<and>
    find_tag (is_tag (u ''img'')) (contents c4) = None \<and>
    find_tag (div_class (u ''card'')) (contents c4) = None \<longrightarrow>
      clue_of L c4 =
        (if clean_text L (Some c4) = [] \<or> clean_text L (Some c4) \<in> set PLACEHOLDERS then []
         else [TextClue (clean_text L (Some c4))])) \<and>
   (suffix (u ''.mp3'') h \<longrightarrow>
      extract_clues L (Elem name cls attrs
         [Elem (u ''div'') [u ''clue''] attrs1 [Elem (u ''a'') cls2 [(u ''href'', h)] [Text t]]])
        = [AudioClue h])"
proof (intro conjI impI)
  assume "suffix (u ''.mp3'') h"
  then show "extract_clues L (Elem name cls attrs
         [Elem (u ''div'') [u ''clue''] attrs1 [Elem (u ''a'') cls2 [(u ''href'', h)] [Text t]]])
        = [AudioClue h]"
    by (simp add: extract_clues_def div_class_def is_tag_def class_is_def clue_of_def find_tag_def
        mp3_href_def attr_or_def)
qed (auto simp: clue_of_def Let_def)

theorem clue_classification_witness:
  "clue_of example_platform audio_cell = [AudioClue (u ''/m/1.mp3'')] \<and>
   clue_of example_platform image_cell = [ImageClue (u ''/i/1.png'') (u ''Cat'')] \<and>
   clue_of example_platform card_cell = [TextClue (u ''Dog'')] \<and>
   clue_of example_platform placeholder_cell = [] \<and>
   extract_clues example_platform (Elem (u ''div'') [u ''round''] []
         [Elem (u ''div'') [u ''clue''] [] [Elem (u ''a'') [] [(u ''href'', u ''/m/1.mp3'')] [Text (u ''Play'')]]])
      = [AudioClue (u ''/m/1.mp3'')]"
proof -
  have a1: "find_tag (\<lambda>n. is_tag (u ''a'') n \<and> mp3_href n) (contents audio_cell)
      = Some (Elem (u ''a'') [] [(u ''href'', u ''/m/1.mp3'')] [Text (u ''Play'')])"
    by (simp add: audio_cell_def find_tag_def is_tag_def mp3_href_def suffix_to_prefix prefix_code)
  have i1: "find_tag (\<lambda>n. is_tag (u ''a'') n \<and> mp3_href n) (contents image_cell) = None \<and>
    find_tag (is_tag (u ''img'')) (contents image_cell)
      = Some (Elem (u ''img'') [] [(u ''src'', u ''/i/1.png''), (u ''alt'', u ''Cat'')] [])"
    by (simp add: image_cell_def find_tag_def is_tag_def mp3_href_def)
  have c1: "find_tag (\<lambda>n. is_tag (u ''a'') n \<and> mp3_href n) (contents card_cell) = None \<and>
    find_tag (is_tag (u ''img'')) (contents card_cell) = None \<and>
    find_tag (div_class (u ''card'')) (contents card_cell)
      = Some (Elem (u ''div'') [u ''card''] []
        [Elem (u ''div'') [u ''front''] [] [Text (u ''Clue 2'')],
         Elem (u ''div'') [u ''back''] [] [Text (u ''Dog'')]]) \<and>
    find_tag (div_class (u ''back'')) (contents (Elem (u ''div'') [u ''card''] []
        [Elem (u ''div'') [u ''front''] [] [Text (u ''Clue 2'')],
         Elem (u ''div'') [u ''back''] [] [Text (u ''Dog'')]]))
      = Some (Elem (u ''div'') [u ''back''] [] [Text (u ''Dog'')])"
    by (simp add: card_cell_def find_tag_def is_tag_def mp3_href_def div_class_def class_is_def)
  have p1: "find_tag (\<lambda>n. is_tag (u ''a'') n \<and> mp3_href n) (contents placeholder_cell) = None \<and>
    find_tag (is_tag (u ''img'')) (contents placeholder_cell) = None \<and>
    find_tag (div_class (u ''card'')) (contents placeholder_cell) = None"
    by (simp add: placeholder_cell_def find_tag_def)
  have t1: "clean_text example_platform (Some (Elem (u ''div'') [u ''back''] [] [Text (u ''Dog'')])) = u ''Dog''"
    by (simp add: clean_text_def get_text_strip_def strip_def is_space_def example_platform_def)
  have t2: "clean_text example_platform (Some placeholder_cell) = u ''Clue 3''"
    by (simp add: placeholder_cell_def clean_text_def get_text_strip_def strip_def is_space_def example_platform_def)
  have s1: "suffix (u ''.mp3'') (u ''/m/1.mp3'')"
    by (simp add: suffix_to_prefix prefix_code)
  show ?thesis
    using a1 i1 c1 p1 t1 t2 s1
      clue_classification [of audio_cell "Elem (u ''a'') [] [(u ''href'', u ''/m/1.mp3'')] [Text (u ''Play'')]"
        example_platform image_cell "Elem (u ''img'') [] [(u ''src'', u ''/i/1.png''), (u ''alt'', u ''Cat'')] []"
        card_cell "Elem (u ''div'') [u ''card''] []
        [Elem (u ''div'') [u ''front''] [] [Text (u ''Clue 2'')],
         Elem (u ''div'') [u ''back''] [] [Text (u ''Dog'')]]"
        "Elem (u ''div'') [u ''back''] [] [Text (u ''Dog'')]" placeholder_cell "u ''/m/1.mp3''"
        "u ''div''" "[u ''round'']" "[]" "[]" "[]" "u ''Play''"]
    by (simp add: attr_or_def PLACEHOLDERS_def)
qed

text \<open>
  C8 as stated fails: a cell whose card back reads \<open>?\<close> yields only the placeholder
  text \<open>?\<close>, and the clue is kept in the list.
\<close>

theorem card_placeholder_counterexample:
  "extract_clues example_platform (Elem (u ''div'') [u ''round''] [] [question_card_cell])
     = [TextClue (u ''?'')] \<and>
   u ''?'' \<in> set PLACEHOLDERS"
  by (simp add: extract_clues_def question_card_cell_def div_class_def is_tag_def class_is_def
      clue_of_def find_tag_def mp3_href_def clean_text_def get_text_strip_def strip_def is_space_def
      example_platform_def PLACEHOLDERS_def)

section \<open>Properties of the label resolution\<close>

lemma glyph_label_match:
  "g \<in> set gs \<Longrightarrow> sublist (py_lower L g) (py_lower L t) \<Longrightarrow>
     glyph_label L t gs r = glyph_label L t gs None \<and>
     (\<exists>g' \<in> set gs. glyph_label L t gs r = Some g' \<and> sublist (py_lower L g') (py_lower L t))"
  by (induction gs) auto

lemma glyph_label_lower:
  "py_lower L t = py_lower L t' \<Longrightarrow> glyph_label L t gs r = glyph_label L t' gs r"
  by (induction gs) auto

lemma glyphs_nonempty: "[] \<notin> set EGYPTIAN_GLYPHS"
  by (simp add: EGYPTIAN_GLYPHS_def)

lemma greek_label_find:
  "greek_label t zs =
     map_option fst (find (\<lambda>(greek, symbol). sublist greek t \<or> sublist symbol t) zs)"
proof (induction zs)
  case Nil
  then show ?case by simp
next
  case (Cons z zs)
  obtain greek symbol where z: "z = (greek, symbol)" by (cases z)
  show ?case
  proof (cases "sublist greek t \<or> sublist symbol t")
    case True
    with z show ?thesis by simp
  next
    case False
    with z Cons.IH show ?thesis by simp
  qed
qed

lemma greek_label_Some:
  "greek_label t zs = Some greek \<Longrightarrow>
     \<exists>symbol. (greek, symbol) \<in> set zs \<and> (sublist greek t \<or> sublist symbol t)"
  by (induction zs) (auto split: if_splits)

lemma glyph_label_find:
  "glyph_label L t gs r =
     (case find (\<lambda>glyph. sublist (py_lower L glyph) (py_lower L t)) gs of
        Some glyph \<Rightarrow> Some glyph
      | None \<Rightarrow> r)"
  by (induction gs) auto

lemma glyph_label_no_match:
  "\<forall>glyph \<in> set gs. \<not> sublist (py_lower L glyph) (py_lower L t) \<Longrightarrow> glyph_label L t gs r = r"
  by (induction gs) auto

text \<open>
  C10. When the heading text matches an Egyptian glyph name, the label recorded is an
  Egyptian glyph name matching the text, whatever the Greek loop found before: the
  result is the one for no Greek match at all. The glyph loop sees the text only through
  \<open>lower\<close>: it gives the first glyph name whose lower case occurs in the lower case of
  the text, so two texts that differ in case resolve alike. The Greek loop compares the
  text as it is: it gives the first letter whose name or symbol occurs in the text as
  written, so a Greek label is recorded only for a text that holds the name or the symbol
  in that very spelling, and only when no glyph name matches; \<open>Alpha\<close> matches and
  \<open>alpha\<close>, \<open>ALPHA\<close> do not.
\<close>

theorem glyph_overrides_greek:
  "(g \<in> set EGYPTIAN_GLYPHS \<and> sublist (py_lower L g) (py_lower L t) \<longrightarrow>
      index_label L t = glyph_label L t EGYPTIAN_GLYPHS None \<and>
      (\<exists>g' \<in> set EGYPTIAN_GLYPHS.
         question_label L t = g' \<and> sublist (py_lower L g') (py_lower L t))) \<and>
   (py_lower L t1 = py_lower L t2 \<longrightarrow>
      glyph_label L t1 EGYPTIAN_GLYPHS r = glyph_label L t2 EGYPTIAN_GLYPHS r) \<and>
   greek_label (u ''Alpha'') (zip GREEK_LETTERS GREEK_SYMBOLS) = Some (u ''Alpha'') \<and>
   greek_label (u ''alpha'') (zip GREEK_LETTERS GREEK_SYMBOLS) = None \<and>
   greek_label (u ''ALPHA'') (zip GREEK_LETTERS GREEK_SYMBOLS) = None \<and>
   greek_label t3 zs =
     map_option fst (find (\<lambda>(greek, symbol). sublist greek t3 \<or> sublist symbol t3) zs) \<and>
   glyph_label L t3 gs r3 =
     (case find (\<lambda>glyph. sublist (py_lower L glyph) (py_lower L t3)) gs of
        Some glyph \<Rightarrow> Some glyph
      | None \<Rightarrow> r3) \<and>
   (greek_label t4 (zip GREEK_LETTERS GREEK_SYMBOLS) = Some greek \<longrightarrow>
      (\<exists>symbol. (greek, symbol) \<in> set (zip GREEK_LETTERS GREEK_SYMBOLS) \<and>
                (sublist greek t4 \<or> sublist symbol t4))) \<and>
   ((\<forall>glyph \<in> set EGYPTIAN_GLYPHS. \<not> sublist (py_lower L glyph) (py_lower L t5)) \<longrightarrow>
      index_label L t5 = greek_label t5 (zip GREEK_LETTERS GREEK_SYMBOLS)) \<and>
   ((\<forall>glyph \<in> set EGYPTIAN_GLYPHS. \<not> sublist (py_lower L glyph) (py_lower L t6)) \<and>
    (\<forall>(greek, symbol) \<in> set (zip GREEK_LETTERS GREEK_SYMBOLS).
        \<not> sublist greek t6 \<and> \<not> sublist symbol t6) \<longrightarrow>
      question_label L t6 = t6)"
proof (intro conjI impI)
  assume h: "g \<in> set EGYPTIAN_GLYPHS \<and> sublist (py_lower L g) (py_lower L t)"
  from h have hg: "g \<in> set EGYPTIAN_GLYPHS" and hs: "sublist (py_lower L g) (py_lower L t)"
    by simp_all
  note gm = glyph_label_match [OF hg hs, of "greek_label t (zip GREEK_LETTERS GREEK_SYMBOLS)"]
  have m: "index_label L t = glyph_label L t EGYPTIAN_GLYPHS None"
    unfolding index_label_def using gm by (rule conjunct1)
  have e: "\<exists>g' \<in> set EGYPTIAN_GLYPHS. index_label L t = Some g' \<and>
               sublist (py_lower L g') (py_lower L t)"
    unfolding index_label_def using gm by (rule conjunct2)
  show "index_label L t = glyph_label L t EGYPTIAN_GLYPHS None" by (rule m)
  from e obtain g' where g': "g' \<in> set EGYPTIAN_GLYPHS" "index_label L t = Some g'"
    "sublist (py_lower L g') (py_lower L t)" by blast
  from g'(1) glyphs_nonempty have "g' \<noteq> []" by blast
  with g'(2) have "question_label L t = g'" by (simp add: question_label_def)
  with g'(1,3) show "\<exists>g' \<in> set EGYPTIAN_GLYPHS.
         question_label L t = g' \<and> sublist (py_lower L g') (py_lower L t)" by blast
next
  assume "py_lower L t1 = py_lower L t2"
  then show "glyph_label L t1 EGYPTIAN_GLYPHS r = glyph_label L t2 EGYPTIAN_GLYPHS r"
    by (rule glyph_label_lower)
next
  show "greek_label (u ''Alpha'') (zip GREEK_LETTERS GREEK_SYMBOLS) = Some (u ''Alpha'')"
    by (simp add: GREEK_LETTERS_def GREEK_SYMBOLS_def sublist_code prefix_code)
  show "greek_label (u ''alpha'') (zip GREEK_LETTERS GREEK_SYMBOLS) = None"
    by (simp add: GREEK_LETTERS_def GREEK_SYMBOLS_def sublist_code prefix_code)
  show "greek_label (u ''ALPHA'') (zip GREEK_LETTERS GREEK_SYMBOLS) = None"
    by (simp add: GREEK_LETTERS_def GREEK_SYMBOLS_def sublist_code prefix_code)
next
  show "greek_label t3 zs =
     map_option fst (find (\<lambda>(greek, symbol). sublist greek t3 \<or> sublist symbol t3) zs)"
    by (rule greek_label_find)
  show "glyph_label L t3 gs r3 =
     (case find (\<lambda>glyph. sublist (py_lower L glyph) (py_lower L t3)) gs of
        Some glyph \<Rightarrow> Some glyph
      | None \<Rightarrow> r3)"
    by (rule glyph_label_find)
next
  assume "greek_label t4 (zip GREEK_LETTERS GREEK_SYMBOLS) = Some greek"
  then show "\<exists>symbol. (greek, symbol) \<in> set (zip GREEK_LETTERS GREEK_SYMBOLS) \<and>
                (sublist greek t4 \<or> sublist symbol t4)"
    by (rule greek_label_Some)
next
  assume "\<forall>glyph \<in> set EGYPTIAN_GLYPHS. \<not> sublist (py_lower L glyph) (py_lower L t5)"
  then show "index_label L t5 = greek_label t5 (zip GREEK_LETTERS GREEK_SYMBOLS)"
    unfolding index_label_def by (rule glyph_label_no_match)
next
  assume a: "(\<forall>glyph \<in> set EGYPTIAN_GLYPHS. \<not> sublist (py_lower L glyph) (py_lower L t6)) \<and>
    (\<forall>(greek, symbol) \<in> set (zip GREEK_LETTERS GREEK_SYMBOLS).
        \<not> sublist greek t6 \<and> \<not> sublist symbol t6)"
  then have i: "index_label L t6 = greek_label t6 (zip GREEK_LETTERS GREEK_SYMBOLS)"
    unfolding index_label_def by (simp add: glyph_label_no_match)
  have "greek_label t6 (zip GREEK_LETTERS GREEK_SYMBOLS) = None"
  proof (cases "greek_label t6 (zip GREEK_LETTERS GREEK_SYMBOLS)")
    case None
    then show ?thesis .
  next
    case (Some greek)
    from greek_label_Some [OF this] a show ?thesis by blast
  qed
  with i show "question_label L t6 = t6" by (simp add: question_label_def)
qed

theorem glyph_overrides_greek_witness:
  "u ''Lion'' \<in> set EGYPTIAN_GLYPHS \<and>
   sublist (py_lower example_platform (u ''Lion'')) (py_lower example_platform (u ''Alpha LION'')) \<and>
   greek_label (u ''Alpha LION'') (zip GREEK_LETTERS GREEK_SYMBOLS) = Some (u ''Alpha'') \<and>
   question_label example_platform (u ''Alpha LION'') = u ''Lion'' \<and>
   py_lower example_platform (u ''Alpha LION'') = py_lower example_platform (u ''alpha lion'') \<and>
   glyph_label example_platform (u ''Alpha LION'') EGYPTIAN_GLYPHS None
     = glyph_label example_platform (u ''alpha lion'') EGYPTIAN_GLYPHS None \<and>
   (\<exists>symbol. (u ''Alpha'', symbol) \<in> set (zip GREEK_LETTERS GREEK_SYMBOLS) \<and>
        (sublist (u ''Alpha'') (u ''Alpha LION'') \<or> sublist symbol (u ''Alpha LION''))) \<and>
   index_label example_platform (u ''Beta'') = Some (u ''Beta'') \<and>
   index_label example_platform (u ''beta'') = None \<and>
   question_label example_platform (u ''alpha'') = u ''alpha''"
proof -
  have h1: "u ''Lion'' \<in> set EGYPTIAN_GLYPHS" by (simp add: EGYPTIAN_GLYPHS_def)
  have h2: "sublist (py_lower example_platform (u ''Lion'')) (py_lower example_platform (u ''Alpha LION''))"
    by (simp add: example_platform_def sublist_code prefix_code)
  have h3: "py_lower example_platform (u ''Alpha LION'') = py_lower example_platform (u ''alpha lion'')"
    by (simp add: example_platform_def)
  have g: "greek_label (u ''Alpha LION'') (zip GREEK_LETTERS GREEK_SYMBOLS) = Some (u ''Alpha'')"
    by (simp add: GREEK_LETTERS_def GREEK_SYMBOLS_def sublist_code prefix_code)
  have q: "question_label example_platform (u ''Alpha LION'') = u ''Lion''"
    by (simp add: question_label_def index_label_def EGYPTIAN_GLYPHS_def example_platform_def
        GREEK_LETTERS_def GREEK_SYMBOLS_def sublist_code prefix_code)
  have n5: "\<forall>glyph \<in> set EGYPTIAN_GLYPHS.
      \<not> sublist (py_lower example_platform glyph) (py_lower example_platform (u ''Beta''))"
    by (simp add: EGYPTIAN_GLYPHS_def example_platform_def sublist_code prefix_code)
  have g5: "greek_label (u ''Beta'') (zip GREEK_LETTERS GREEK_SYMBOLS) = Some (u ''Beta'')"
    by (simp add: GREEK_LETTERS_def GREEK_SYMBOLS_def sublist_code prefix_code)
  have b: "index_label example_platform (u ''beta'') = None"
    by (simp add: index_label_def EGYPTIAN_GLYPHS_def example_platform_def
        GREEK_LETTERS_def GREEK_SYMBOLS_def sublist_code prefix_code)
  have n6: "(\<forall>glyph \<in> set EGYPTIAN_GLYPHS.
      \<not> sublist (py_lower example_platform glyph) (py_lower example_platform (u ''alpha''))) \<and>
    (\<forall>(greek, symbol) \<in> set (zip GREEK_LETTERS GREEK_SYMBOLS).
        \<not> sublist greek (u ''alpha'') \<and> \<not> sublist symbol (u ''alpha''))"
    by (simp add: EGYPTIAN_GLYPHS_def example_platform_def GREEK_LETTERS_def GREEK_SYMBOLS_def
        sublist_code prefix_code)
  note t = glyph_overrides_greek [where g = "u ''Lion''" and L = example_platform
      and t = "u ''Alpha LION''" and ?t1.0 = "u ''Alpha LION''" and ?t2.0 = "u ''alpha lion''"
      and r = None and ?t4.0 = "u ''Alpha LION''" and greek = "u ''Alpha''"
      and ?t5.0 = "u ''Beta''" and ?t6.0 = "u ''alpha''"]
  from h1 h2 t have r1: "question_label example_platform (u ''Alpha LION'') \<in> set EGYPTIAN_GLYPHS"
    by blast
  from h3 t have r2: "glyph_label example_platform (u ''Alpha LION'') EGYPTIAN_GLYPHS None
     = glyph_label example_platform (u ''alpha lion'') EGYPTIAN_GLYPHS None" by blast
  from g t have r4: "\<exists>symbol. (u ''Alpha'', symbol) \<in> set (zip GREEK_LETTERS GREEK_SYMBOLS) \<and>
        (sublist (u ''Alpha'') (u ''Alpha LION'') \<or> sublist symbol (u ''Alpha LION''))" by blast
  from n5 t have "index_label example_platform (u ''Beta'')
      = greek_label (u ''Beta'') (zip GREEK_LETTERS GREEK_SYMBOLS)" by blast
  with g5 have r5: "index_label example_platform (u ''Beta'') = Some (u ''Beta'')" by simp
  from n6 t have r6: "question_label example_platform (u ''alpha'') = u ''alpha''" by blast
  from h1 h2 g q h3 r2 r4 r5 b r6 show ?thesis by blast
qed

section \<open>Properties of parse_episode\<close>

lemma find_first_None_iff: "find_first p ns = None \<longleftrightarrow> find_all p ns = []"
proof (induction p ns rule: find_first.induct)
  case (4 p n cls as cs rest)
  show ?case
  proof (cases "p (Elem n cls as cs)")
    case True
    then show ?thesis by simp
  next
    case False
    note np = this
    show ?thesis
    proof (cases "find_first p cs")
      case None
      with np "4.IH"(1) "4.IH"(2) show ?thesis by simp
    next
      case (Some r)
      with np "4.IH"(1) show ?thesis by simp
    qed
  qed
qed simp_all

lemma find_all_weaken:
  "find_all p ns = [] \<Longrightarrow> \<forall>n. q n \<longrightarrow> p n \<Longrightarrow> find_all q ns = []"
proof (induction p ns rule: find_all.induct)
  case (4 p n cls as cs rest)
  from "4.prems"(1) have a: "\<not> p (Elem n cls as cs)" "find_all p cs = []" "find_all p rest = []"
    by (simp_all split: if_splits)
  from a(1) "4.prems"(2) have "\<not> q (Elem n cls as cs)" by blast
  moreover from a(2) "4.prems"(2) have "find_all q cs = []" by (rule "4.IH"(1))
  moreover from a(3) "4.prems"(2) have "find_all q rest = []" by (rule "4.IH"(2))
  ultimately show ?case by simp
qed simp_all

lemma round_header_absent_None:
  assumes "round_header_absent soup k"
  shows "find_round_header soup k = None"
proof -
  let ?p = "\<lambda>n. is_tag (u ''h2'') n \<and>
                 (get_attr n (u ''id'') = Some (u ''round'' @ decimal k) \<or>
                  string_search (u ''Round '' @ decimal k) n)"
  from assms have a: "find_all ?p soup = []" by (simp add: round_header_absent_def)
  have "find_all (\<lambda>n. is_tag (u ''h2'') n \<and> get_attr n (u ''id'') = Some (u ''round'' @ decimal k)) soup = []"
    by (rule find_all_weaken [OF a]) simp
  then have 1: "find_first (\<lambda>n. is_tag (u ''h2'') n \<and> get_attr n (u ''id'') = Some (u ''round'' @ decimal k)) soup = None"
    by (simp only: find_first_None_iff)
  have "find_all (\<lambda>n. is_tag (u ''h2'') n \<and> string_search (u ''Round '' @ decimal k) n) soup = []"
    by (rule find_all_weaken [OF a]) simp
  then have 2: "find_first (\<lambda>n. is_tag (u ''h2'') n \<and> string_search (u ''Round '' @ decimal k) n) soup = None"
    by (simp only: find_first_None_iff)
  show ?thesis
    unfolding find_round_header_def using 1 2 by simp
qed

text \<open>
  C5. \<open>parse_episode\<close> returns \<open>None\<close> exactly when \<open>fetch_page\<close> returns no
  document; when the document is fetched it returns a record, with the URL asked for and
  the four rounds parsed from the document; and each of the four round parsers returns
  the empty list when the section of its round is absent from the document.
\<close>

theorem parse_episode_total:
  "(fst (parse_episode L web url metadata s) = None) = (fst (fetch_page web url s) = None) \<and>
   (fst (fetch_page web url s) = Some soup \<longrightarrow>
      (\<exists>ep. fst (parse_episode L web url metadata s) = Some ep \<and> ep_url ep = url \<and>
            round1 ep = parse_connection_round L soup 1 \<and>
            round2 ep = parse_connection_round L soup 2 \<and>
            round3 ep = parse_wall_round L soup \<and>
            round4 ep = parse_vowels_round L soup)) \<and>
   (round_header_absent soup1 1 \<longrightarrow> parse_connection_round L soup1 1 = []) \<and>
   (round_header_absent soup2 2 \<longrightarrow> parse_connection_round L soup2 2 = []) \<and>
   (round_header_absent soup3 3 \<longrightarrow> parse_wall_round L soup3 = []) \<and>
   (round_header_absent soup4 4 \<longrightarrow> parse_vowels_round L soup4 = [])"
proof (intro conjI impI)
  show "(fst (parse_episode L web url metadata s) = None) = (fst (fetch_page web url s) = None)"
    by (rule parse_episode_None)
next
  assume "fst (fetch_page web url s) = Some soup"
  then show "\<exists>ep. fst (parse_episode L web url metadata s) = Some ep \<and> ep_url ep = url \<and>
            round1 ep = parse_connection_round L soup 1 \<and>
            round2 ep = parse_connection_round L soup 2 \<and>
            round3 ep = parse_wall_round L soup \<and>
            round4 ep = parse_vowels_round L soup"
    by (cases "fetch_page web url s") (simp add: parse_episode_def build_episode_def Let_def)
next
  assume "round_header_absent soup1 1"
  then show "parse_connection_round L soup1 1 = []"
    by (simp add: parse_connection_round_def round_header_absent_None)
next
  assume "round_header_absent soup2 2"
  then show "parse_connection_round L soup2 2 = []"
    by (simp add: parse_connection_round_def round_header_absent_None)
next
  assume "round_header_absent soup3 3"
  then show "parse_wall_round L soup3 = []"
    by (simp add: parse_wall_round_def round_header_absent_None)
next
  assume "round_header_absent soup4 4"
  then show "parse_vowels_round L soup4 = []"
    by (simp add: parse_vowels_round_def round_header_absent_None)
qed

theorem parse_episode_total_witness:
  "fst (fetch_page web_404 (stub_url pilot_stub) (new_scraper empty_disk)) = None \<and>
   fst (parse_episode example_platform web_404 (stub_url pilot_stub) pilot_stub (new_scraper empty_disk)) = None \<and>
   fst (fetch_page web_bare (stub_url pilot_stub) (new_scraper empty_disk)) = Some bare_page \<and>
   round_header_absent bare_page 1 \<and> round_header_absent bare_page 2 \<and>
   round_header_absent bare_page 3 \<and> round_header_absent bare_page 4 \<and>
   (\<exists>ep. fst (parse_episode example_platform web_bare (stub_url pilot_stub) pilot_stub
                (new_scraper empty_disk)) = Some ep \<and>
         ep_url ep = stub_url pilot_stub \<and>
         round1 ep = [] \<and> round2 ep = [] \<and> round3 ep = [] \<and> round4 ep = [])"
proof -
  have f0: "fst (fetch_page web_404 (stub_url pilot_stub) (new_scraper empty_disk)) = None"
    by (simp add: fetch_page_def MAX_RETRIES_Suc web_404_def Let_def)
  have f1: "fst (fetch_page web_bare (stub_url pilot_stub) (new_scraper empty_disk)) = Some bare_page"
    by (simp add: fetch_page_def MAX_RETRIES_Suc web_bare_def Let_def)
  have a: "round_header_absent bare_page 1 \<and> round_header_absent bare_page 2 \<and>
     round_header_absent bare_page 3 \<and> round_header_absent bare_page 4"
    by (simp add: round_header_absent_def bare_page_def is_tag_def decimal_digit
        string_search_def sublist_code prefix_code)
  note t0 = parse_episode_total [of example_platform web_404 "stub_url pilot_stub" pilot_stub
      "new_scraper empty_disk" bare_page bare_page bare_page bare_page bare_page]
  note t1 = parse_episode_total [of example_platform web_bare "stub_url pilot_stub" pilot_stub
      "new_scraper empty_disk" bare_page bare_page bare_page bare_page bare_page]
  from f0 t0 have p0: "fst (parse_episode example_platform web_404 (stub_url pilot_stub) pilot_stub
      (new_scraper empty_disk)) = None" by blast
  from t1 a have r: "parse_connection_round example_platform bare_page 1 = []"
      "parse_connection_round example_platform bare_page 2 = []"
      "parse_wall_round example_platform bare_page = []"
      "parse_vowels_round example_platform bare_page = []" by blast+
  from f1 t1 obtain ep where ep: "fst (parse_episode example_platform web_bare (stub_url pilot_stub)
      pilot_stub (new_scraper empty_disk)) = Some ep" "ep_url ep = stub_url pilot_stub"
      "round1 ep = parse_connection_round example_platform bare_page 1"
      "round2 ep = parse_connection_round example_platform bare_page 2"
      "round3 ep = parse_wall_round example_platform bare_page"
      "round4 ep = parse_vowels_round example_platform bare_page" by blast
  from ep r have "fst (parse_episode example_platform web_bare (stub_url pilot_stub) pilot_stub
                (new_scraper empty_disk)) = Some ep \<and>
         ep_url ep = stub_url pilot_stub \<and>
         round1 ep = [] \<and> round2 ep = [] \<and> round3 ep = [] \<and> round4 ep = []" by simp
  then have "\<exists>ep. fst (parse_episode example_platform web_bare (stub_url pilot_stub) pilot_stub
                (new_scraper empty_disk)) = Some ep \<and>
         ep_url ep = stub_url pilot_stub \<and>
         round1 ep = [] \<and> round2 ep = [] \<and> round3 ep = [] \<and> round4 ep = []" by (rule exI)
  with f0 p0 f1 a show ?thesis by blast
qed

section \<open>Properties of run\<close>

lemma fetch_attempts_requests:
  "\<exists>rs. requests (snd (fetch_attempts web url n s)) = requests s @ rs \<and> set rs \<subseteq> {url}"
proof (induction n arbitrary: s)
  case 0
  then show ?case by simp
next
  case (Suc n)
  let ?s1 = "on_failure (s\<lparr>requests := requests s @ [url]\<rparr>)"
  from Suc.IH [of ?s1] obtain rs where
    rs: "requests (snd (fetch_attempts web url n ?s1)) = requests ?s1 @ rs" "set rs \<subseteq> {url}"
    by blast
  have r1: "requests ?s1 = requests s @ [url]" by (simp add: on_failure_def)
  have retry: "\<exists>rs'. requests (snd (fetch_attempts web url n ?s1)) = requests s @ rs' \<and> set rs' \<subseteq> {url}"
  proof (intro exI conjI)
    show "requests (snd (fetch_attempts web url n ?s1)) = requests s @ ([url] @ rs)"
      using rs(1) r1 by simp
    show "set ([url] @ rs) \<subseteq> {url}" using rs(2) by simp
  qed
  have stop: "\<exists>rs'. requests s @ [url] = requests s @ rs' \<and> set rs' \<subseteq> {url}"
    by (intro exI [of _ "[url]"]) simp
  show ?case
  proof (cases "web (length (requests s)) url")
    case (Status code body)
    then show ?thesis using retry stop
      by (simp add: Let_def on_success_def)
  next
    case Timeout
    then show ?thesis using retry by (simp add: Let_def)
  next
    case RequestError
    then show ?thesis using retry by (simp add: Let_def)
  qed
qed

lemma scrape_one_requests:
  "requests (scrape_one L web i e s) = requests (snd (fetch_page web (stub_url e) s))"
  by (simp add: scrape_one_def parse_episode_def save_progress_def Let_def
      split: prod.split option.split)

lemma scrape_loop_requests:
  "\<exists>rs. requests (scrape_loop L web i stubs s) = requests s @ rs \<and> set rs \<subseteq> stub_url ` set stubs"
proof (induction stubs arbitrary: i s)
  case Nil
  then show ?case by simp
next
  case (Cons e stubs)
  from fetch_attempts_requests [of web "stub_url e" MAX_RETRIES s]
  obtain r1 where r1: "requests (scrape_one L web i e s) = requests s @ r1" "set r1 \<subseteq> {stub_url e}"
    by (auto simp: scrape_one_requests fetch_page_def)
  from Cons.IH [of "i + 1" "scrape_one L web i e s"]
  obtain r2 where r2: "requests (scrape_loop L web (i + 1) stubs (scrape_one L web i e s))
       = requests (scrape_one L web i e s) @ r2" "set r2 \<subseteq> stub_url ` set stubs"
    by blast
  show ?case
  proof (intro exI conjI)
    show "requests (scrape_loop L web i (e # stubs) s) = requests s @ (r1 @ r2)"
      using r1(1) r2(1) by simp
    show "set (r1 @ r2) \<subseteq> stub_url ` set (e # stubs)"
      using r1(2) r2(2) by auto
  qed
qed

lemma set_cap: "set (cap m xs) \<subseteq> set xs"
  by (auto simp: cap_def split: option.splits dest: in_set_takeD)

lemma get_episode_urls_frame:
  fixes s :: scraper
  shows "episodes (snd (get_episode_urls L web s)) = episodes s \<and>
         completed (snd (get_episode_urls L web s)) = completed s \<and>
         failed (snd (get_episode_urls L web s)) = failed s \<and>
         files (snd (get_episode_urls L web s)) = files s \<and>
         saves (snd (get_episode_urls L web s)) = saves s"
proof -
  have "snd (get_episode_urls L web s) = snd (fetch_page web EPISODES_URL s)"
    by (simp add: get_episode_urls_def split: prod.split option.split)
  then show ?thesis by (simp add: fetch_page_frame)
qed

text \<open>
  C6. With resume enabled the work list is the listing without the URLs of the completed
  list, cut by the cap afterwards: no URL of the completed list is in it, and a positive
  cap \<open>n\<close> leaves \<open>n\<close> URLs whenever that many are not completed. Every request that
  \<open>run\<close> issues after the fetch of the listing is for a URL outside the completed list.
\<close>

theorem resume_skips_completed:
  "work_list m True c listing = cap m (filter (\<lambda>ep. stub_url ep \<notin> set c) listing) \<and>
   (\<forall>ep \<in> set (work_list m True c listing). stub_url ep \<notin> set c) \<and>
   (0 < n \<longrightarrow> length (work_list (Some (int n)) True c listing)
        = min n (length (filter (\<lambda>ep. stub_url ep \<notin> set c) listing))) \<and>
   (\<exists>rs. requests (run L web m True s0)
           = requests (snd (get_episode_urls L web (load_progress s0))) @ rs \<and>
         set rs \<inter> set (completed (load_progress s0)) = {})"
proof (intro conjI impI)
  show "work_list m True c listing = cap m (filter (\<lambda>ep. stub_url ep \<notin> set c) listing)"
    by (simp add: work_list_def)
  show "\<forall>ep \<in> set (work_list m True c listing). stub_url ep \<notin> set c"
    using set_cap [of m "filter (\<lambda>ep. stub_url ep \<notin> set c) listing"]
    by (auto simp: work_list_def)
next
  assume "0 < n"
  then show "length (work_list (Some (int n)) True c listing)
        = min n (length (filter (\<lambda>ep. stub_url ep \<notin> set c) listing))"
    by (simp add: work_list_def cap_def min_def)
next
  let ?s = "load_progress s0"
  obtain eps s1 where g: "get_episode_urls L web ?s = (eps, s1)"
    by (cases "get_episode_urls L web ?s")
  from get_episode_urls_frame [of L web ?s] g have c1: "completed s1 = completed ?s" by simp
  show "\<exists>rs. requests (run L web m True s0)
           = requests (snd (get_episode_urls L web ?s)) @ rs \<and>
         set rs \<inter> set (completed ?s) = {}"
  proof (cases "eps = []")
    case True
    with g have "requests (run L web m True s0) = requests s1 @ []" by (simp add: run_def)
    with g show ?thesis by auto
  next
    case False
    let ?wl = "work_list m True (completed s1) eps"
    from scrape_loop_requests [of L web 0 ?wl s1]
    obtain rs where rs: "requests (scrape_loop L web 0 ?wl s1) = requests s1 @ rs"
      "set rs \<subseteq> stub_url ` set ?wl" by blast
    have "\<forall>ep \<in> set ?wl. stub_url ep \<notin> set (completed s1)"
      using set_cap [of m "filter (\<lambda>ep. stub_url ep \<notin> set (completed s1)) eps"]
      by (auto simp: work_list_def)
    with rs(2) have d: "set rs \<inter> set (completed ?s) = {}" using c1 by auto
    from False g rs(1) have "requests (run L web m True s0) = requests s1 @ rs"
      by (simp add: run_def save_progress_def)
    with g d show ?thesis by auto
  qed
qed

lemma scrape_one_saves:
  "saves (scrape_one L web i e s) = saves s + (if (i + 1) mod 10 = 0 then 1 else 0)"
proof -
  have "saves (snd (fetch_page web (stub_url e) s)) = saves s" by (simp add: fetch_page_frame)
  then show ?thesis
    by (auto simp: scrape_one_def parse_episode_def save_progress_def Let_def
      split: prod.split option.split)
qed

lemma scrape_one_count:
  "length (completed (scrape_one L web i e s)) + length (failed (scrape_one L web i e s))
     = length (completed s) + length (failed s) + 1"
proof -
  have "completed (snd (fetch_page web (stub_url e) s)) = completed s"
       "failed (snd (fetch_page web (stub_url e) s)) = failed s" by (simp_all add: fetch_page_frame)
  then show ?thesis
    by (auto simp: scrape_one_def parse_episode_def save_progress_def Let_def
      split: prod.split option.split)
qed

lemma scrape_loop_saves:
  "saves (scrape_loop L web i stubs s) = saves s + ((i + length stubs) div 10 - i div 10)"
proof (induction stubs arbitrary: i s)
  case Nil
  then show ?case by simp
next
  case (Cons e stubs)
  have step: "saves (scrape_loop L web i (e # stubs) s)
      = saves s + ((if (i + 1) mod 10 = 0 then 1 else 0)
          + ((i + 1 + length stubs) div 10 - (i + 1) div 10))"
    using Cons.IH [of "i + 1" "scrape_one L web i e s"] by (simp add: scrape_one_saves)
  have arith: "(if (i + 1) mod 10 = 0 then 1 else 0) + ((i + 1 + length stubs) div 10 - (i + 1) div 10)
      = (i + length (e # stubs)) div 10 - i div 10"
  proof -
    have a: "(i + 1) div 10 = i div 10 + (if (i + 1) mod 10 = 0 then 1 else 0)" by presburger
    have b: "(i + 1) div 10 \<le> (i + 1 + length stubs) div 10" by (simp add: div_le_mono)
    from a b show ?thesis by simp
  qed
  show ?case unfolding step arith ..
qed

lemma scrape_loop_count:
  "length (completed (scrape_loop L web i stubs s)) + length (failed (scrape_loop L web i stubs s))
     = length (completed s) + length (failed s) + length stubs"
proof (induction stubs arbitrary: i s)
  case Nil
  then show ?case by simp
next
  case (Cons e stubs)
  show ?case
    using Cons.IH [of "i + 1" "scrape_one L web i e s"] scrape_one_count [of L web i e s]
    by simp
qed

text \<open>
  C9, as the code has it. The loop saves after the URL of index \<open>i\<close> exactly when
  \<open>i + 1\<close> is a multiple of 10, whether the URL was completed or failed, and then
  writes the progress lists and the episodes as they are; over a work list it saves once
  per 10 URLs, each URL adding one entry to \<open>completed\<close> or to \<open>failed\<close>.
\<close>

theorem checkpoint_every_ten_urls:
  "saves (scrape_one L web i e s) = saves s + (if (i + 1) mod 10 = 0 then 1 else 0) \<and>
   ((i + 1) mod 10 = 0 \<longrightarrow>
      files (scrape_one L web i e s) =
        \<lparr>progress_file = Some (completed (scrape_one L web i e s), failed (scrape_one L web i e s)),
         output_file = Some (episodes (scrape_one L web i e s))\<rparr>) \<and>
   ((i + 1) mod 10 \<noteq> 0 \<longrightarrow> files (scrape_one L web i e s) = files s) \<and>
   saves (scrape_loop L web 0 stubs s) = saves s + length stubs div 10 \<and>
   length (completed (scrape_loop L web 0 stubs s)) + length (failed (scrape_loop L web 0 stubs s))
     = length (completed s) + length (failed s) + length stubs"
proof (intro conjI impI)
  show "saves (scrape_one L web i e s) = saves s + (if (i + 1) mod 10 = 0 then 1 else 0)"
    by (rule scrape_one_saves)
  show "saves (scrape_loop L web 0 stubs s) = saves s + length stubs div 10"
    using scrape_loop_saves [of L web 0 stubs s] by simp
  show "length (completed (scrape_loop L web 0 stubs s)) + length (failed (scrape_loop L web 0 stubs s))
     = length (completed s) + length (failed s) + length stubs"
    by (rule scrape_loop_count)
next
  assume "(i + 1) mod 10 = 0"
  then show "files (scrape_one L web i e s) =
        \<lparr>progress_file = Some (completed (scrape_one L web i e s), failed (scrape_one L web i e s)),
         output_file = Some (episodes (scrape_one L web i e s))\<rparr>"
    by (simp add: scrape_one_def save_progress_def Let_def split: prod.split option.split)
next
  have f: "files (snd (fetch_page web (stub_url e) s)) = files s" by (simp add: fetch_page_frame)
  assume "(i + 1) mod 10 \<noteq> 0"
  then show "files (scrape_one L web i e s) = files s"
    using f
    by (auto simp: scrape_one_def parse_episode_def Let_def split: prod.split option.split)
qed

lemma listing_fetch:
  "get_episode_urls L (site listing r) s =
     (episode_stubs L listing, on_success (s\<lparr>requests := requests s @ [EPISODES_URL]\<rparr>))"
  by (simp add: get_episode_urls_def fetch_page_def MAX_RETRIES_Suc site_def Let_def)

lemma ten_listing_stubs:
  "episode_stubs example_platform ten_listing
     = ten_stubs"
  by (simp add: ten_listing_def ten_stubs_def episode_stubs_def listing_content_def find_tag_def div_class_def
      class_is_def is_tag_def get_text_strip_def strip_def is_space_def attr_or_def
      sublist_code prefix_code example_platform_def BASE_URL_def
      match_number_def is_digit_def py_int_def drop_episode_prefix_def Let_def)

lemma two_listing_stubs:
  "episode_stubs example_platform two_listing
     = two_stubs"
  by (simp add: two_listing_def two_stubs_def pilot_stub_def episode_stubs_def listing_content_def find_tag_def div_class_def
      class_is_def is_tag_def get_text_strip_def strip_def is_space_def attr_or_def
      sublist_code prefix_code example_platform_def BASE_URL_def
      match_number_def is_digit_def py_int_def drop_episode_prefix_def Let_def)

lemma twice_listing_stubs:
  "episode_stubs example_platform twice_listing
     = [pilot_stub, pilot_stub]"
  by (simp add: twice_listing_def pilot_stub_def episode_stubs_def listing_content_def find_tag_def div_class_def
      class_is_def is_tag_def get_text_strip_def strip_def is_space_def attr_or_def
      sublist_code prefix_code example_platform_def BASE_URL_def
      match_number_def is_digit_def py_int_def drop_episode_prefix_def Let_def)

lemma ten_not_listing: "\<forall>e \<in> set ten_stubs. stub_url e \<noteq> EPISODES_URL"
  by (simp add: ten_stubs_def EPISODES_URL_def BASE_URL_def)

lemma rejected_one:
  "stub_url e \<noteq> EPISODES_URL \<Longrightarrow>
   scrape_one L (site listing (Status 404 [])) i e s =
     (if (i + 1) mod 10 = 0
      then save_progress (s\<lparr>requests := requests s @ [stub_url e], failed := failed s @ [stub_url e]\<rparr>)
      else s\<lparr>requests := requests s @ [stub_url e], failed := failed s @ [stub_url e]\<rparr>)"
  by (simp add: scrape_one_def parse_episode_def fetch_page_def MAX_RETRIES_Suc site_def Let_def)

text \<open>
  C9 as stated fails: over a listing of ten episodes that all answer 404, no episode is
  completed, and \<open>run\<close> has saved twice: once in the loop, after the tenth URL, and
  once after the loop.
\<close>

theorem checkpoint_counts_failures_counterexample:
  "completed (run example_platform (site ten_listing (Status 404 [])) None False (new_scraper empty_disk)) = [] \<and>
   episodes (run example_platform (site ten_listing (Status 404 [])) None False (new_scraper empty_disk)) = [] \<and>
   length (failed (run example_platform (site ten_listing (Status 404 [])) None False (new_scraper empty_disk))) = 10 \<and>
   saves (run example_platform (site ten_listing (Status 404 [])) None False (new_scraper empty_disk)) = 2"
proof -
  let ?s1 = "on_success ((new_scraper empty_disk)\<lparr>requests := requests (new_scraper empty_disk) @ [EPISODES_URL]\<rparr>)"
  have r: "run example_platform (site ten_listing (Status 404 [])) None False (new_scraper empty_disk)
    = save_progress (scrape_loop example_platform (site ten_listing (Status 404 [])) 0 ten_stubs ?s1)"
    by (simp add: run_def Let_def listing_fetch ten_listing_stubs work_list_def cap_def)
       (simp add: ten_stubs_def)
  have l: "scrape_loop example_platform (site ten_listing (Status 404 [])) 0 ten_stubs ?s1
     = save_progress (?s1\<lparr>requests := EPISODES_URL # map stub_url ten_stubs,
          failed := map stub_url ten_stubs\<rparr>)"
    using ten_not_listing
    by (simp add: ten_stubs_def rejected_one new_scraper_def save_progress_def on_success_def)
  show ?thesis
    unfolding r l by (simp add: save_progress_def new_scraper_def ten_stubs_def on_success_def)
qed

lemma pilot_not_listing: "stub_url pilot_stub \<noteq> EPISODES_URL"
  by (simp add: pilot_stub_def EPISODES_URL_def BASE_URL_def)

theorem checkpoint_every_ten_urls_witness:
  "saves (scrape_one example_platform (site one_listing (Status 404 [])) 9 pilot_stub (new_scraper empty_disk)) = 1 \<and>
   files (scrape_one example_platform (site one_listing (Status 404 [])) 9 pilot_stub (new_scraper empty_disk))
     = \<lparr>progress_file = Some ([], [stub_url pilot_stub]), output_file = Some []\<rparr> \<and>
   files (scrape_one example_platform (site one_listing (Status 404 [])) 0 pilot_stub (new_scraper empty_disk))
     = empty_disk \<and>
   saves (scrape_loop example_platform (site one_listing (Status 404 [])) 0 [pilot_stub] (new_scraper empty_disk)) = 0"
proof -
  let ?w = "site one_listing (Status 404 [])"
  have e: "completed (scrape_one example_platform ?w 9 pilot_stub (new_scraper empty_disk)) = []"
      "failed (scrape_one example_platform ?w 9 pilot_stub (new_scraper empty_disk)) = [stub_url pilot_stub]"
      "episodes (scrape_one example_platform ?w 9 pilot_stub (new_scraper empty_disk)) = []"
    using pilot_not_listing by (simp_all add: rejected_one save_progress_def new_scraper_def)
  have n: "saves (new_scraper empty_disk) = 0" "files (new_scraper empty_disk) = empty_disk"
    by (simp_all add: new_scraper_def)
  from e n
    checkpoint_every_ten_urls [of example_platform ?w 9 pilot_stub "new_scraper empty_disk" "[pilot_stub]"]
    checkpoint_every_ten_urls [of example_platform ?w 0 pilot_stub "new_scraper empty_disk" "[pilot_stub]"]
  show ?thesis by simp
qed

lemma accepted_one:
  "stub_url e \<noteq> EPISODES_URL \<Longrightarrow>
   scrape_one L (site listing (Status 200 page)) i e s =
     (if (i + 1) mod 10 = 0
      then save_progress (s\<lparr>delay := success (delay s), requests := requests s @ [stub_url e],
             episodes := episodes s @ [build_episode L (py_now L (Suc (length (requests s)))) page (stub_url e) e],
             completed := completed s @ [stub_url e]\<rparr>)
      else s\<lparr>delay := success (delay s), requests := requests s @ [stub_url e],
             episodes := episodes s @ [build_episode L (py_now L (Suc (length (requests s)))) page (stub_url e) e],
             completed := completed s @ [stub_url e]\<rparr>)"
  by (simp add: scrape_one_def parse_episode_def fetch_page_def MAX_RETRIES_Suc site_def Let_def
      on_success_def save_progress_def)

lemma new_scraper_fields:
  "requests (new_scraper d) = []" "episodes (new_scraper d) = []" "completed (new_scraper d) = []"
  "failed (new_scraper d) = []" "files (new_scraper d) = d" "saves (new_scraper d) = 0"
  by (simp_all add: new_scraper_def)

lemma ep_url_build: "ep_url (build_episode L now soup url m) = url"
  by (simp add: build_episode_def Let_def)

lemma resumed_load:
  "load_progress (new_scraper resumed_disk) =
     (new_scraper resumed_disk)\<lparr>episodes := [pilot_episode], completed := [stub_url pilot_stub]\<rparr>"
  by (simp add: load_progress_def new_scraper_def resumed_disk_def)

lemma two_not_listing: "\<forall>e \<in> set two_stubs. stub_url e \<noteq> EPISODES_URL"
  by (simp add: two_stubs_def pilot_stub_def EPISODES_URL_def BASE_URL_def)

theorem resume_skips_completed_witness:
  "completed (load_progress (new_scraper resumed_disk)) = [stub_url pilot_stub] \<and>
   requests (snd (get_episode_urls example_platform (site two_listing (Status 200 bare_page))
      (load_progress (new_scraper resumed_disk)))) = [EPISODES_URL] \<and>
   work_list (Some 1) True [stub_url pilot_stub] two_stubs = [two_stubs ! 1] \<and>
   requests (run example_platform (site two_listing (Status 200 bare_page)) (Some 1) True
      (new_scraper resumed_disk)) = [EPISODES_URL, u ''https://ocdb.cc/episode/2''] \<and>
   (\<exists>rs. requests (run example_platform (site two_listing (Status 200 bare_page)) (Some 1) True
             (new_scraper resumed_disk)) = [EPISODES_URL] @ rs \<and>
         set rs \<inter> {stub_url pilot_stub} = {})"
proof -
  let ?w = "site two_listing (Status 200 bare_page)"
  have c: "completed (load_progress (new_scraper resumed_disk)) = [stub_url pilot_stub]"
    by (simp add: resumed_load)
  have q: "requests (snd (get_episode_urls example_platform ?w (load_progress (new_scraper resumed_disk))))
      = [EPISODES_URL]"
    by (simp add: listing_fetch resumed_load on_success_def new_scraper_fields)
  have w: "work_list (Some 1) True [stub_url pilot_stub] two_stubs = [two_stubs ! 1]"
    by (simp add: work_list_def cap_def two_stubs_def pilot_stub_def)
  have r: "requests (run example_platform ?w (Some 1) True (new_scraper resumed_disk))
      = [EPISODES_URL, u ''https://ocdb.cc/episode/2'']"
    using two_not_listing
    apply (simp add: run_def Let_def listing_fetch two_listing_stubs resumed_load on_success_def)
    apply (simp add: two_stubs_def pilot_stub_def work_list_def cap_def accepted_one
        save_progress_def new_scraper_fields)
    done
  from c q resume_skips_completed [of "Some 1" "[stub_url pilot_stub]" two_stubs 1 example_platform ?w
      "new_scraper resumed_disk"]
  have x: "\<exists>rs. requests (run example_platform ?w (Some 1) True (new_scraper resumed_disk))
             = [EPISODES_URL] @ rs \<and> set rs \<inter> {stub_url pilot_stub} = {}"
    by simp
  from c q w r x show ?thesis by blast
qed

section \<open>Uniqueness of the record URLs\<close>

lemma parse_episode_url:
  "fst (parse_episode L web url m s) = Some ep \<Longrightarrow> ep_url ep = url"
  by (auto simp: parse_episode_def ep_url_build split: prod.splits option.splits)

lemma scrape_one_ok:
  assumes ok: "records_ok s" and new: "stub_url e \<notin> set (completed s)"
  shows "records_ok (scrape_one L web i e s) \<and>
         set (completed (scrape_one L web i e s)) \<subseteq> insert (stub_url e) (set (completed s))"
proof -
  obtain r t where p: "parse_episode L web (stub_url e) e s = (r, t)"
    by (cases "parse_episode L web (stub_url e) e s")
  have "t = snd (fetch_page web (stub_url e) s)"
    using p parse_episode_snd [of L web "stub_url e" e s] by simp
  then have fr: "episodes t = episodes s" "completed t = completed s"
    by (simp_all add: fetch_page_frame)
  show ?thesis
  proof (cases r)
    case None
    with p fr ok show ?thesis
      by (auto simp: scrape_one_def save_progress_def records_ok_def Let_def)
  next
    case (Some ep)
    with p have "ep_url ep = stub_url e"
      using parse_episode_url [of L web "stub_url e" e s ep] by simp
    with Some p fr ok new show ?thesis
      by (auto simp: scrape_one_def save_progress_def records_ok_def Let_def)
  qed
qed

lemma scrape_loop_ok:
  "records_ok s \<Longrightarrow> distinct (map stub_url stubs) \<Longrightarrow>
   set (map stub_url stubs) \<inter> set (completed s) = {} \<Longrightarrow>
   records_ok (scrape_loop L web i stubs s)"
proof (induction stubs arbitrary: i s)
  case Nil
  then show ?case by simp
next
  case (Cons e stubs)
  from Cons.prems(3) have new: "stub_url e \<notin> set (completed s)" by auto
  from scrape_one_ok [OF Cons.prems(1) new, of L web i]
  have ok1: "records_ok (scrape_one L web i e s)"
    and c1: "set (completed (scrape_one L web i e s)) \<subseteq> insert (stub_url e) (set (completed s))"
    by simp_all
  from Cons.prems(2) have d: "distinct (map stub_url stubs)" "stub_url e \<notin> set (map stub_url stubs)"
    by simp_all
  from Cons.prems(3) have p3: "set (map stub_url stubs) \<inter> set (completed s) = {}" by auto
  from p3 c1 d(2)
  have dj: "set (map stub_url stubs) \<inter> set (completed (scrape_one L web i e s)) = {}"
    by blast
  from Cons.IH [OF ok1 d(1) dj, of "i + 1"] show ?case by simp
qed

lemma load_ok: "disk_ok d \<Longrightarrow> records_ok (load_progress (new_scraper d))"
  by (auto simp: disk_ok_def records_ok_def load_progress_def new_scraper_def
      split: option.splits prod.splits)

lemma save_ok: "records_ok s \<Longrightarrow> disk_ok (files (save_progress s)) \<and> records_ok (save_progress s)"
  by (simp add: disk_ok_def records_ok_def save_progress_def)

lemma distinct_cap: "distinct (map f xs) \<Longrightarrow> distinct (map f (cap m xs))"
  by (simp add: cap_def distinct_take take_map [symmetric] split: option.splits)

lemma run_ok:
  assumes d: "disk_ok d"
    and l: "distinct (map stub_url (fst (get_episode_urls L web
         (if resume then load_progress (new_scraper d) else new_scraper d))))"
  shows "records_ok (run L web m resume (new_scraper d)) \<and>
         disk_ok (files (run L web m resume (new_scraper d)))"
proof -
  let ?s = "if resume then load_progress (new_scraper d) else new_scraper d"
  have ok: "records_ok ?s"
    using d by (simp add: load_ok) (simp add: records_ok_def new_scraper_def)
  have fs: "files ?s = d"
    by (simp add: load_progress_def new_scraper_def Let_def split: option.splits prod.splits)
  have cs: "\<not> resume \<Longrightarrow> completed ?s = []" by (simp add: new_scraper_def)
  obtain eps s1 where g: "get_episode_urls L web ?s = (eps, s1)"
    by (cases "get_episode_urls L web ?s")
  from get_episode_urls_frame [of L web ?s] g
  have fr: "episodes s1 = episodes ?s" "completed s1 = completed ?s" "files s1 = files ?s"
    by simp_all
  from ok fr have ok1: "records_ok s1" by (simp add: records_ok_def)
  from l g have dl: "distinct (map stub_url eps)" by simp
  show ?thesis
  proof (cases "eps = []")
    case True
    with g have "run L web m resume (new_scraper d) = s1" by (simp add: run_def Let_def)
    with ok1 fr fs d show ?thesis by simp
  next
    case False
    let ?wl = "work_list m resume (completed s1) eps"
    have dw: "distinct (map stub_url ?wl)"
      using dl by (simp add: work_list_def distinct_cap distinct_map_filter)
    have dj: "set (map stub_url ?wl) \<inter> set (completed s1) = {}"
    proof (cases resume)
      case True
      then show ?thesis
        using set_cap [of m "filter (\<lambda>ep. stub_url ep \<notin> set (completed s1)) eps"]
        by (auto simp: work_list_def)
    next
      case False
      with cs fr show ?thesis by simp
    qed
    from False g have r: "run L web m resume (new_scraper d)
        = save_progress (scrape_loop L web 0 ?wl s1)" by (simp add: run_def Let_def)
    from scrape_loop_ok [OF ok1 dw dj, of L web 0] save_ok
    show ?thesis unfolding r by blast
  qed
qed

lemma crawl_ok: "disk_ok d \<Longrightarrow> listings_distinct L runs d \<Longrightarrow> disk_ok (crawl L runs d)"
proof (induction runs arbitrary: d)
  case Nil
  then show ?case by simp
next
  case (Cons x runs)
  obtain web m resume where x: "x = (web, m, resume)" by (cases x)
  from Cons.prems(2) x
  have l: "distinct (map stub_url (fst (get_episode_urls L web
         (if resume then load_progress (new_scraper d) else new_scraper d))))"
    and rest: "listings_distinct L runs (files (run L web m resume (new_scraper d)))"
    by simp_all
  from run_ok [OF Cons.prems(1) l, of m] have "disk_ok (files (run L web m resume (new_scraper d)))"
    by simp
  from Cons.IH [OF this rest] x show ?case by simp
qed

text \<open>
  C7, as the code has it. When the files are in order and the listing of a run holds no
  URL twice, no two records of the scraper have the same URL after the run, and the
  files are in order again. So after any sequence of runs from empty files whose
  listings hold no URL twice, no two stored records have the same URL.
\<close>

theorem records_unique_for_distinct_listings:
  "(disk_ok d \<and>
    distinct (map stub_url (fst (get_episode_urls L web
         (if resume then load_progress (new_scraper d) else new_scraper d)))) \<longrightarrow>
      distinct (map ep_url (episodes (run L web m resume (new_scraper d)))) \<and>
      disk_ok (files (run L web m resume (new_scraper d)))) \<and>
   (listings_distinct L runs empty_disk \<longrightarrow>
      (\<forall>eps. output_file (crawl L runs empty_disk) = Some eps \<longrightarrow> distinct (map ep_url eps)))"
proof (intro conjI impI allI)
  assume a: "disk_ok d \<and>
    distinct (map stub_url (fst (get_episode_urls L web
         (if resume then load_progress (new_scraper d) else new_scraper d))))"
  then have d: "disk_ok d" and l: "distinct (map stub_url (fst (get_episode_urls L web
         (if resume then load_progress (new_scraper d) else new_scraper d))))" by simp_all
  from run_ok [OF d l, of m]
  show "distinct (map ep_url (episodes (run L web m resume (new_scraper d))))"
    and "disk_ok (files (run L web m resume (new_scraper d)))"
    by (simp_all add: records_ok_def)
next
  fix eps
  assume l: "listings_distinct L runs empty_disk"
    and o: "output_file (crawl L runs empty_disk) = Some eps"
  have "disk_ok empty_disk" by (simp add: disk_ok_def empty_disk_def)
  from crawl_ok [OF this l] o show "distinct (map ep_url eps)"
    by (simp add: disk_ok_def)
qed

lemma load_empty: "load_progress (new_scraper empty_disk) = new_scraper empty_disk"
  by (simp add: load_progress_def new_scraper_def empty_disk_def)

theorem records_unique_for_distinct_listings_witness:
  "disk_ok resumed_disk \<and>
   distinct (map stub_url (fst (get_episode_urls example_platform
      (site two_listing (Status 200 bare_page)) (load_progress (new_scraper resumed_disk))))) \<and>
   distinct (map ep_url (episodes (run example_platform (site two_listing (Status 200 bare_page))
      None True (new_scraper resumed_disk)))) \<and>
   listings_distinct example_platform [(site two_listing (Status 200 bare_page), None, True)] empty_disk \<and>
   (\<exists>eps. output_file (crawl example_platform
              [(site two_listing (Status 200 bare_page), None, True)] empty_disk) = Some eps \<and>
          distinct (map ep_url eps))"
proof -
  let ?w = "site two_listing (Status 200 bare_page)"
  have two: "distinct (map stub_url two_stubs)" "two_stubs \<noteq> []"
    by (simp_all add: two_stubs_def pilot_stub_def)
  have d: "disk_ok resumed_disk"
    by (simp add: disk_ok_def resumed_disk_def pilot_episode_def ep_url_build)
  have l1: "distinct (map stub_url (fst (get_episode_urls example_platform ?w
      (load_progress (new_scraper resumed_disk)))))"
    using two by (simp add: listing_fetch two_listing_stubs)
  have l0: "listings_distinct example_platform [(?w, None, True)] empty_disk"
    using two by (simp add: listing_fetch two_listing_stubs)
  have o: "output_file (crawl example_platform [(?w, None, True)] empty_disk)
      = Some (episodes (run example_platform ?w None True (new_scraper empty_disk)))"
    using two by (simp add: run_def Let_def listing_fetch two_listing_stubs save_progress_def)
  note t1 = records_unique_for_distinct_listings [of resumed_disk example_platform ?w True None
      "[(?w, None, True)]"]
  from d l1 t1 have r1: "distinct (map ep_url (episodes (run example_platform ?w None True
      (new_scraper resumed_disk))))" by simp
  from l0 o t1 have r0: "distinct (map ep_url (episodes (run example_platform ?w None True
      (new_scraper empty_disk))))" by blast
  from o r0 have e: "\<exists>eps. output_file (crawl example_platform [(?w, None, True)] empty_disk) = Some eps \<and>
          distinct (map ep_url eps)" by blast
  from d l1 r1 l0 e show ?thesis by blast
qed

text \<open>
  C7 as stated fails: when the listing links the same episode twice, one run from empty
  files fetches it twice and keeps two records with the same URL.
\<close>

theorem duplicate_listing_counterexample:
  "map ep_url (episodes (run example_platform (site twice_listing (Status 200 bare_page))
       None True (new_scraper empty_disk)))
     = [u ''https://ocdb.cc/episode/1'', u ''https://ocdb.cc/episode/1''] \<and>
   \<not> distinct (map ep_url (episodes (run example_platform (site twice_listing (Status 200 bare_page))
       None True (new_scraper empty_disk))))"
proof -
  have r: "map ep_url (episodes (run example_platform (site twice_listing (Status 200 bare_page))
       None True (new_scraper empty_disk)))
     = [u ''https://ocdb.cc/episode/1'', u ''https://ocdb.cc/episode/1'']"
    using pilot_not_listing
    apply (simp add: run_def Let_def listing_fetch twice_listing_stubs load_empty on_success_def)
    apply (simp add: work_list_def cap_def accepted_one save_progress_def new_scraper_fields
        ep_url_build)
    apply (simp add: pilot_stub_def)
    done
  show ?thesis unfolding r by simp
qed

end
